theory Spec2Isabelle
  imports Complex_Main
begin

section \<open>Dense arrays\<close>

text \<open>
  The loss functions of \<^verbatim>\<open>lib/model/losses_plaid.py\<close> work on dense arrays of the Keras
  backend \<^verbatim>\<open>K\<close>. An array of rank k is a k-fold nested list, outermost axis first; an image
  batch is channels last, \<^verbatim>\<open>(batch, height, width, channels)\<close>. Elements are real numbers:
  the arithmetic of the model is exact, so a quotient whose divisor is zero (infinite or
  not-a-number in floating point) carries no meaning here, and the theorems below that give
  the value of a quotient keep its divisor away from zero.
\<close>

type_synonym t1 = "real list"
type_synonym t2 = "real list list"
type_synonym t3 = "real list list list"
type_synonym t4 = "real list list list list"

definition tab :: "nat \<Rightarrow> (nat \<Rightarrow> 'a) \<Rightarrow> 'a list" where
  "tab n f = map f [0..<n]"

text \<open>\<^verbatim>\<open>K.int_shape\<close>, one axis at a time (the length along an axis, read at index 0 of the
  axes before it).\<close>

definition dim1 :: "'a list list \<Rightarrow> nat" where
  "dim1 t = (case t of [] \<Rightarrow> 0 | x # _ \<Rightarrow> length x)"

definition dim2 :: "'a list list list \<Rightarrow> nat" where
  "dim2 t = (case t of [] \<Rightarrow> 0 | x # _ \<Rightarrow> dim1 x)"

definition dim3 :: "'a list list list list \<Rightarrow> nat" where
  "dim3 t = (case t of [] \<Rightarrow> 0 | x # _ \<Rightarrow> dim2 x)"

text \<open>An array has the shape it is said to have when every sub-array has the right length.\<close>

definition shape2 :: "nat \<Rightarrow> nat \<Rightarrow> 'a list list \<Rightarrow> bool" where
  "shape2 a b t = (length t = a \<and> list_all (\<lambda>x. length x = b) t)"

definition shape3 :: "nat \<Rightarrow> nat \<Rightarrow> nat \<Rightarrow> 'a list list list \<Rightarrow> bool" where
  "shape3 a b c t = (length t = a \<and> list_all (shape2 b c) t)"

definition shape4 :: "nat \<Rightarrow> nat \<Rightarrow> nat \<Rightarrow> nat \<Rightarrow> 'a list list list list \<Rightarrow> bool" where
  "shape4 a b c d t = (length t = a \<and> list_all (shape3 b c d) t)"

text \<open>Elementwise operations: with a scalar, and between two arrays of one shape.\<close>

definition tmap2 :: "('a \<Rightarrow> 'b) \<Rightarrow> 'a list list \<Rightarrow> 'b list list" where
  "tmap2 f = map (map f)"

definition tmap3 :: "('a \<Rightarrow> 'b) \<Rightarrow> 'a list list list \<Rightarrow> 'b list list list" where
  "tmap3 f = map (tmap2 f)"

definition tmap4 :: "('a \<Rightarrow> 'b) \<Rightarrow> 'a list list list list \<Rightarrow> 'b list list list list" where
  "tmap4 f = map (tmap3 f)"

definition tzip1 :: "('a \<Rightarrow> 'b \<Rightarrow> 'c) \<Rightarrow> 'a list \<Rightarrow> 'b list \<Rightarrow> 'c list" where
  "tzip1 f xs ys = map (\<lambda>(x, y). f x y) (zip xs ys)"

definition tzip2 :: "('a \<Rightarrow> 'b \<Rightarrow> 'c) \<Rightarrow> 'a list list \<Rightarrow> 'b list list \<Rightarrow> 'c list list" where
  "tzip2 f = tzip1 (tzip1 f)"

definition tzip3 ::
  "('a \<Rightarrow> 'b \<Rightarrow> 'c) \<Rightarrow> 'a list list list \<Rightarrow> 'b list list list \<Rightarrow> 'c list list list" where
  "tzip3 f = tzip1 (tzip2 f)"

definition tzip4 ::
  "('a \<Rightarrow> 'b \<Rightarrow> 'c) \<Rightarrow> 'a list list list list \<Rightarrow> 'b list list list list
     \<Rightarrow> 'c list list list list" where
  "tzip4 f = tzip1 (tzip3 f)"

text \<open>\<^verbatim>\<open>K.concatenate(ts, axis=1)\<close> and \<^verbatim>\<open>K.concatenate(ts, axis=2)\<close> of a list of arrays;
  the second is also the concatenation along the last axis of arrays of rank 3.\<close>

fun K_concatenate1 :: "'a list list list \<Rightarrow> 'a list list" where
  "K_concatenate1 [] = []"
| "K_concatenate1 [t] = t"
| "K_concatenate1 (t # ts) = tzip1 (@) t (K_concatenate1 ts)"

fun K_concatenate2 :: "'a list list list list \<Rightarrow> 'a list list list" where
  "K_concatenate2 [] = []"
| "K_concatenate2 [t] = t"
| "K_concatenate2 (t # ts) = tzip2 (@) t (K_concatenate2 ts)"

text \<open>\<^verbatim>\<open>K.expand_dims(x, axis=-1)\<close> on rank 2 and on rank 3, and
  \<^verbatim>\<open>K.tile(x, (1, 1, 1, n))\<close>.\<close>

definition K_expand_dims :: "t2 \<Rightarrow> t3" where
  "K_expand_dims t = tmap2 (\<lambda>x. [x]) t"

definition K_expand_dims3 :: "t3 \<Rightarrow> t4" where
  "K_expand_dims3 t = tmap3 (\<lambda>x. [x]) t"

definition K_tile_last :: "nat \<Rightarrow> t4 \<Rightarrow> t4" where
  "K_tile_last n t = tmap3 (\<lambda>v. concat (replicate n v)) t"

text \<open>A Python slice \<^verbatim>\<open>xs[lo:hi]\<close>: a missing bound is \<open>None\<close>, a negative bound counts
  from the end, and both are clamped to the list.\<close>

definition slice_index :: "int \<Rightarrow> nat \<Rightarrow> nat" where
  "slice_index i n = (if i < 0 then nat (max (i + int n) 0) else min (nat i) n)"

definition py_slice :: "int option \<Rightarrow> int option \<Rightarrow> 'a list \<Rightarrow> 'a list" where
  "py_slice lo hi xs =
     (let n = length xs;
          a = (case lo of None \<Rightarrow> 0 | Some i \<Rightarrow> slice_index i n);
          b = (case hi of None \<Rightarrow> n | Some j \<Rightarrow> slice_index j n)
      in take (b - a) (drop a xs))"

text \<open>The number of elements of a slice of a list of length \<open>n\<close>.\<close>

definition slice_len :: "int option \<Rightarrow> int option \<Rightarrow> nat \<Rightarrow> nat" where
  "slice_len lo hi n =
     min ((case hi of None \<Rightarrow> n | Some j \<Rightarrow> slice_index j n)
          - (case lo of None \<Rightarrow> 0 | Some i \<Rightarrow> slice_index i n))
         (n - (case lo of None \<Rightarrow> 0 | Some i \<Rightarrow> slice_index i n))"

text \<open>The array of zeros of a shape.\<close>

definition zeros4 :: "nat \<Rightarrow> nat \<Rightarrow> nat \<Rightarrow> nat \<Rightarrow> t4" where
  "zeros4 n h w c = replicate n (replicate h (replicate w (replicate c 0)))"

definition zeros3 :: "nat \<Rightarrow> nat \<Rightarrow> nat \<Rightarrow> t3" where
  "zeros3 n h w = replicate n (replicate h (replicate w 0))"

text \<open>Slices of a batch: \<^verbatim>\<open>img[:, lo:hi, :, :]\<close>, \<^verbatim>\<open>img[:, :, lo:hi, :]\<close> and
  \<^verbatim>\<open>img[..., lo:hi]\<close>.\<close>

definition slice_h :: "int option \<Rightarrow> int option \<Rightarrow> t4 \<Rightarrow> t4" where
  "slice_h lo hi img = map (py_slice lo hi) img"

definition slice_w :: "int option \<Rightarrow> int option \<Rightarrow> t4 \<Rightarrow> t4" where
  "slice_w lo hi img = map (map (py_slice lo hi)) img"

definition slice_c :: "int option \<Rightarrow> int option \<Rightarrow> t4 \<Rightarrow> t4" where
  "slice_c lo hi img = tmap3 (py_slice lo hi) img"

text \<open>\<^verbatim>\<open>K.square\<close>, \<^verbatim>\<open>K.relu\<close> and \<^verbatim>\<open>K.pow\<close> on one element. The power of a positive base is
  the real power. A base that is not positive has the integer power for a whole exponent, and
  zero has the power 0 for a positive exponent; the cases left (a negative base with a
  fractional exponent, zero with a negative one), not-a-number or infinite in floating
  point, have no meaning here.\<close>

definition K_square :: "real \<Rightarrow> real" where
  "K_square x = x * x"

definition K_relu :: "real \<Rightarrow> real" where
  "K_relu x = max x 0"

definition K_pow :: "real \<Rightarrow> real \<Rightarrow> real" where
  "K_pow x p =
     (if 0 < x then x powr p
      else if p = of_int \<lfloor>p\<rfloor> then x powi \<lfloor>p\<rfloor>
      else 0)"

text \<open>\<^verbatim>\<open>K.mean\<close> with no axis: the mean of all elements of an array of rank 2.\<close>

definition mean_list :: "real list \<Rightarrow> real" where
  "mean_list xs = sum_list xs / real (length xs)"

definition K_mean2 :: "t2 \<Rightarrow> real" where
  "K_mean2 t = mean_list (concat t)"

text \<open>\<^verbatim>\<open>K.mean(x, axis=(-3, -2))\<close> on a batch: the mean over height and width, for every
  sample and channel.\<close>

definition K_mean_hw :: "t4 \<Rightarrow> t2" where
  "K_mean_hw t =
     map (\<lambda>im. tab (dim2 im)
            (\<lambda>c. (\<Sum>i\<leftarrow>[0..<length im]. \<Sum>j\<leftarrow>[0..<dim1 im]. im ! i ! j ! c)
                  / real (length im * dim1 im))) t"

text \<open>\<^verbatim>\<open>K.softmax\<close> of a row.\<close>

definition K_softmax :: "real list \<Rightarrow> real list" where
  "K_softmax xs = map (\<lambda>x. exp x / (\<Sum>y\<leftarrow>xs. exp y)) xs"

text \<open>\<^verbatim>\<open>K.tile(kernel, (1, 1, channels, 1))\<close>: the third axis repeated.\<close>

definition K_tile_channels :: "nat \<Rightarrow> t4 \<Rightarrow> t4" where
  "K_tile_channels channels k = map (map (\<lambda>x. concat (replicate channels x))) k"

text \<open>\<^verbatim>\<open>K.depthwise_conv2d(image, kernel, strides=(1, 1), padding="valid")\<close> with a kernel
  of shape \<^verbatim>\<open>(kh, kw, channels, 1)\<close>: every channel is correlated with its own kernel slice,
  and only the positions where the kernel lies inside the image are produced.\<close>

definition conv_image :: "t3 \<Rightarrow> t4 \<Rightarrow> t3" where
  "conv_image im k =
     tab (length im + 1 - length k) (\<lambda>i.
       tab (dim1 im + 1 - dim1 k) (\<lambda>j.
         tab (dim2 k) (\<lambda>c.
           \<Sum>a\<leftarrow>[0..<length k]. \<Sum>b\<leftarrow>[0..<dim1 k].
              im ! (i + a) ! (j + b) ! c * k ! a ! b ! c ! 0)))"

definition depthwise_conv2d :: "t4 \<Rightarrow> t4 \<Rightarrow> t4" where
  "depthwise_conv2d img k = map (\<lambda>im. conv_image im k) img"

section \<open>DSSIMObjective\<close>

record DSSIMObjective =
  filter_size :: nat
  filter_sigma :: real
  kernel :: t4
  c1 :: real
  c2 :: real

text \<open>\<^verbatim>\<open>_get_kernel\<close>: the offsets around the centre, squared and scaled, summed to a
  two-dimensional bowl, flattened, normalised by softmax and reshaped to
  \<^verbatim>\<open>(filter_size, filter_size, 1, 1)\<close>.\<close>

definition get_kernel :: "'a DSSIMObjective_scheme \<Rightarrow> t4" where
  "get_kernel s =
     (let n = filter_size s;
          coords = map (\<lambda>i. real i - (real n - 1) / 2) [0..<n];
          row = map (\<lambda>c. K_square c * (- 0.5 / K_square (filter_sigma s))) coords;
          bowl = map (\<lambda>a. map (\<lambda>b. b + a) row) row;
          flat = K_softmax (concat bowl)
      in tab n (\<lambda>a. tab n (\<lambda>b. [[flat ! (a * n + b)]])))"

definition DSSIMObjective_init :: "real \<Rightarrow> real \<Rightarrow> nat \<Rightarrow> real \<Rightarrow> real \<Rightarrow> DSSIMObjective" where
  "DSSIMObjective_init k_1 k_2 fsize fsigma max_value =
     (let compensation = 1;
          s = \<lparr>filter_size = fsize, filter_sigma = fsigma, kernel = [],
               c1 = (k_1 * max_value)\<^sup>2, c2 = ((k_2 * max_value)\<^sup>2) * compensation\<rparr>
      in s\<lparr>kernel := get_kernel s\<rparr>)"

text \<open>\<^verbatim>\<open>_get_ssim\<close>: the luminance and the contrast-structure measure of every window, and
  their means over height and width.\<close>

definition get_ssim :: "'a DSSIMObjective_scheme \<Rightarrow> t4 \<Rightarrow> t4 \<Rightarrow> t2 \<times> t2" where
  "get_ssim s y_true y_pred =
     (let channels = dim3 y_pred;
          k = K_tile_channels channels (kernel s);
          mean_true = depthwise_conv2d y_true k;
          mean_pred = depthwise_conv2d y_pred k;
          num_lum = tmap4 (\<lambda>x. x * 2) (tzip4 (*) mean_true mean_pred);
          den_lum = tzip4 (+) (tmap4 K_square mean_true) (tmap4 K_square mean_pred);
          luminance = tzip4 (/) (tmap4 (\<lambda>x. x + c1 s) num_lum) (tmap4 (\<lambda>x. x + c1 s) den_lum);
          num_con = tmap4 (\<lambda>x. x * 2) (depthwise_conv2d (tzip4 (*) y_true y_pred) k);
          den_con = depthwise_conv2d (tzip4 (+) (tmap4 K_square y_true) (tmap4 K_square y_pred)) k;
          contrast = tzip4 (/) (tmap4 (\<lambda>x. x + c2 s) (tzip4 (-) num_con num_lum))
                               (tmap4 (\<lambda>x. x + c2 s) (tzip4 (-) den_con den_lum));
          ssim = K_mean_hw (tzip4 (*) luminance contrast)
      in (ssim, K_mean_hw contrast))"

text \<open>\<^verbatim>\<open>DSSIMObjective.__call__\<close>: \<^verbatim>\<open>K.mean\<close> is called with no axis, so the result is one
  number for the whole batch.\<close>

definition DSSIMObjective_call :: "'a DSSIMObjective_scheme \<Rightarrow> t4 \<Rightarrow> t4 \<Rightarrow> real" where
  "DSSIMObjective_call s y_true y_pred =
     (let ssim = fst (get_ssim s y_true y_pred);
          retval = tmap2 (\<lambda>x. (1 - x) / 2) ssim
      in K_mean2 retval)"

section \<open>MSSIMLoss\<close>

record MSSIMLoss = DSSIMObjective +
  power_factors :: "real list"

definition MSSIMLoss_init ::
  "real \<Rightarrow> real \<Rightarrow> nat \<Rightarrow> real \<Rightarrow> real \<Rightarrow> real list \<Rightarrow> MSSIMLoss" where
  "MSSIMLoss_init k_1 k_2 fsize fsigma max_value pf =
     DSSIMObjective.extend (DSSIMObjective_init k_1 k_2 fsize fsigma max_value)
       (MSSIMLoss.fields pf)"

text \<open>\<^verbatim>\<open>_get_smallest_size\<close>: the size is halved (rounding down) while the counter is
  positive. The counter is a Python integer and may start at \<open>-1\<close>.\<close>

function get_smallest_size :: "nat \<Rightarrow> int \<Rightarrow> nat" where
  "get_smallest_size sz idx =
     (if idx > 0 then get_smallest_size (sz div 2) (idx - 1) else sz)"
  by pat_completeness auto
termination
  by (relation "measure (\<lambda>(sz, idx). nat idx)") auto

declare get_smallest_size.simps [simp del]

text \<open>Modelled from the spec: \<^verbatim>\<open>pad\<close> of \<^verbatim>\<open>lib/plaidml_utils\<close> is not among the sources. The
  spec has it reflect-pad by one pixel on the trailing edge of each spatial dimension; in
  reflect mode the edge itself is not repeated. \<^verbatim>\<open>reflect_pad b a\<close> pads one axis with
  \<open>b\<close> elements before and \<open>a\<close> after, \<^verbatim>\<open>pad\<close> takes the pairs of the four axes.\<close>

definition reflect_pad :: "nat \<Rightarrow> nat \<Rightarrow> 'a list \<Rightarrow> 'a list" where
  "reflect_pad b a xs = rev (take b (tl xs)) @ xs @ take a (tl (rev xs))"

definition pad :: "t4 \<Rightarrow> (nat \<times> nat) \<Rightarrow> (nat \<times> nat) \<Rightarrow> (nat \<times> nat) \<Rightarrow> (nat \<times> nat) \<Rightarrow> t4" where
  "pad img p0 p1 p2 p3 =
     reflect_pad (fst p0) (snd p0)
       (map (\<lambda>im. reflect_pad (fst p1) (snd p1)
          (map (\<lambda>row. reflect_pad (fst p2) (snd p2)
             (map (reflect_pad (fst p3) (snd p3)) row)) im)) img)"

text \<open>\<^verbatim>\<open>K.pool2d(img, (2, 2), strides=(2, 2), padding="valid", pool_mode="avg")\<close>.\<close>

definition pool_image :: "t3 \<Rightarrow> t3" where
  "pool_image im =
     tab (length im div 2) (\<lambda>i.
       tab (dim1 im div 2) (\<lambda>j.
         tab (dim2 im) (\<lambda>c.
           (im ! (2 * i) ! (2 * j) ! c + im ! (2 * i) ! (2 * j + 1) ! c
            + im ! (2 * i + 1) ! (2 * j) ! c + im ! (2 * i + 1) ! (2 * j + 1) ! c) / 4)))"

definition K_pool2d :: "t4 \<Rightarrow> t4" where
  "K_pool2d img = map pool_image img"

text \<open>\<^verbatim>\<open>_shrink_images\<close>: the list \<^verbatim>\<open>[y_true, y_pred]\<close> is a pair. The test for an odd size
  reads \<^verbatim>\<open>K.int_shape(images[1])[1:2]\<close>, the height of the second image only.\<close>

definition shrink_images :: "t4 \<times> t4 \<Rightarrow> t4 \<times> t4" where
  "shrink_images images =
     (let images1 = (if dim1 (snd images) mod 2 \<noteq> 0
                     then (pad (fst images) (0, 0) (0, 1) (0, 1) (0, 0),
                           pad (snd images) (0, 0) (0, 1) (0, 1) (0, 0))
                     else images)
      in (K_pool2d (fst images1), K_pool2d (snd images1)))"

datatype error =
    FaceswapError string
  | UnboundLocalError
  | IndexError
  | ValueError
  | ZeroDivisionError

text \<open>The first lines of \<^verbatim>\<open>_get_ms_ssim\<close>: the filter cannot be larger than the smallest
  scale, so the component's filter size and kernel are replaced when it is.\<close>

definition shrink_filter :: "MSSIMLoss \<Rightarrow> t4 \<Rightarrow> MSSIMLoss" where
  "shrink_filter s y_pred =
     (let im_size = dim1 y_pred;
          recursions = length (power_factors s);
          smallest_scale = get_smallest_size im_size (int recursions - 1)
      in if smallest_scale < filter_size s
         then (let s1 = s\<lparr>filter_size := smallest_scale\<rparr> in s1\<lparr>kernel := get_kernel s1\<rparr>)
         else s)"

text \<open>The body of the loop over the scales: the state is the image pair, the list
  \<^verbatim>\<open>contrasts\<close> and the variable \<^verbatim>\<open>ssim\<close>, which is unbound before the first pass.\<close>

definition scale_step ::
  "MSSIMLoss \<Rightarrow> nat \<Rightarrow> nat \<Rightarrow> (t4 \<times> t4) \<times> t3 list \<times> t2 option
     \<Rightarrow> (t4 \<times> t4) \<times> t3 list \<times> t2 option" where
  "scale_step s recursions idx st =
     (case st of (images, contrasts, _) \<Rightarrow>
        (let images1 = (if idx > 0 then shrink_images images else images);
             (ssim, contrast) = get_ssim s (fst images1) (snd images1);
             contrasts1 = (if int idx < int recursions - 1
                           then contrasts @ [tmap3 K_relu (K_expand_dims contrast)]
                           else contrasts)
         in (images1, contrasts1, Some ssim)))"

text \<open>\<^verbatim>\<open>_get_ms_ssim\<close> returns the component as the call leaves it, and the multiscale score
  or the error of reading \<^verbatim>\<open>ssim\<close> when the loop never ran.\<close>

definition get_ms_ssim :: "MSSIMLoss \<Rightarrow> t4 \<Rightarrow> t4 \<Rightarrow> MSSIMLoss \<times> (error + t2)" where
  "get_ms_ssim s0 y_true y_pred =
     (let s = shrink_filter s0 y_pred;
          recursions = length (power_factors s);
          (images, contrasts, ssim) =
             fold (scale_step s recursions) [0..<recursions] ((y_true, y_pred), [], None)
      in case ssim of
           None \<Rightarrow> (s, Inl UnboundLocalError)
         | Some ssim1 \<Rightarrow>
            (let contrasts1 = contrasts @ [tmap3 K_relu (K_expand_dims ssim1)];
                 mcs_and_ssim = K_concatenate2 contrasts1;
                 ms_ssim = tmap2 (\<lambda>v. tzip1 K_pow v (power_factors s)) mcs_and_ssim;
                 out = fold (\<lambda>idx out. tzip2 (*) out (tmap2 (\<lambda>v. v ! idx) ms_ssim))
                         [1..<recursions] (tmap2 (\<lambda>v. v ! 0) ms_ssim)
             in (s, Inr out)))"

text \<open>\<^verbatim>\<open>MSSIMLoss.__call__\<close>.\<close>

definition MSSIMLoss_call :: "MSSIMLoss \<Rightarrow> t4 \<Rightarrow> t4 \<Rightarrow> MSSIMLoss \<times> (error + real)" where
  "MSSIMLoss_call s y_true y_pred =
     (case get_ms_ssim s y_true y_pred of
        (s1, Inl e) \<Rightarrow> (s1, Inl e)
      | (s1, Inr ms_ssim) \<Rightarrow> (s1, Inr (K_mean2 (tmap2 (\<lambda>x. 1 - x) ms_ssim))))"

text \<open>\<^verbatim>\<open>y[..., i]\<close>: one channel of a batch. A negative index counts from the end, and an
  index outside the channels is an error.\<close>

definition index_c :: "t4 \<Rightarrow> int \<Rightarrow> error + t3" where
  "index_c t i =
     (let n = int (dim3 t); j = (if i < 0 then i + n else i)
      in if 0 \<le> j \<and> j < n then Inr (tmap3 (\<lambda>px. px ! nat j) t) else Inl IndexError)"

section \<open>GeneralizedLoss\<close>

record GeneralizedLoss =
  alpha :: real
  beta :: real

definition GeneralizedLoss_init :: "real \<Rightarrow> real \<Rightarrow> GeneralizedLoss" where
  "GeneralizedLoss_init a b = \<lparr>alpha = a, beta = b\<rparr>"

text \<open>\<^verbatim>\<open>K.mean(loss, axis=-1)\<close> on a batch.\<close>

definition K_mean_last :: "t4 \<Rightarrow> t3" where
  "K_mean_last t = tmap3 mean_list t"

text \<open>\<^verbatim>\<open>GeneralizedLoss.__call__\<close>. Nothing in it tests \<^verbatim>\<open>alpha\<close> or \<^verbatim>\<open>beta\<close>. The
  quotients by \<^verbatim>\<open>beta\<close> and by \<^verbatim>\<open>K.abs(2. - alpha)\<close> in the second line are operations on
  an array of the backend, which build an expression and do not raise. In the third line
  \<^verbatim>\<open>K.abs(2. - alpha) / alpha\<close> is a quotient of two Python numbers (the backend's
  \<^verbatim>\<open>K.abs\<close> of a number is a number), so it raises ZeroDivisionError when \<^verbatim>\<open>alpha\<close> is 0,
  after \<^verbatim>\<open>second\<close> has been built and before the loss is.\<close>

definition GeneralizedLoss_call :: "GeneralizedLoss \<Rightarrow> t4 \<Rightarrow> t4 \<Rightarrow> error + t3" where
  "GeneralizedLoss_call g y_true y_pred =
     (let diff = tzip4 (-) y_pred y_true;
          second = tmap4 (\<lambda>x. x - 1)
                     (tmap4 (\<lambda>x. K_pow x (alpha g / 2))
                        (tmap4 (\<lambda>x. x + 1)
                           (tmap4 (\<lambda>x. x / \<bar>2 - alpha g\<bar>)
                              (tmap4 (\<lambda>x. K_pow x 2) (tmap4 (\<lambda>x. x / beta g) diff)))))
      in if alpha g = 0 then Inl ZeroDivisionError
         else (let loss = tmap4 (\<lambda>x. (\<bar>2 - alpha g\<bar> / alpha g) * x) second
               in Inr (tmap3 (\<lambda>x. x * beta g) (K_mean_last loss))))"

section \<open>LInfNorm\<close>

text \<open>\<^verbatim>\<open>K.max(diff, axis=(1, 2), keepdims=True)\<close>; a maximum over no positions does not
  arise for an image of positive height and width.\<close>

fun max_list :: "real list \<Rightarrow> real" where
  "max_list [] = 0"
| "max_list (x # xs) = fold max xs x"

definition K_max_hw_keepdims :: "t4 \<Rightarrow> t4" where
  "K_max_hw_keepdims t =
     map (\<lambda>im. [[tab (dim2 im) (\<lambda>c. max_list (map (\<lambda>px. px ! c) (concat im)))]]) t"

definition LInfNorm_call :: "t4 \<Rightarrow> t4 \<Rightarrow> t3" where
  "LInfNorm_call y_true y_pred =
     (let diff = tmap4 abs (tzip4 (-) y_true y_pred);
          max_loss = K_max_hw_keepdims diff
      in K_mean_last max_loss)"

section \<open>GradientLoss\<close>

record GradientLoss =
  generalized_loss :: GeneralizedLoss

definition GradientLoss_init :: GradientLoss where
  "GradientLoss_init = \<lparr>generalized_loss = GeneralizedLoss_init 1.9999 (1 / 255)\<rparr>"

definition diff_x :: "t4 \<Rightarrow> t4" where
  "diff_x img =
     (let x_left = tzip4 (-) (slice_w (Some 1) (Some 2) img) (slice_w (Some 0) (Some 1) img);
          x_inner = tzip4 (-) (slice_w (Some 2) None img) (slice_w None (Some (- 2)) img);
          x_right = tzip4 (-) (slice_w (Some (- 1)) None img)
                              (slice_w (Some (- 2)) (Some (- 1)) img);
          x_out = K_concatenate2 [x_left, x_inner, x_right]
      in tmap4 (\<lambda>x. x * 0.5) x_out)"

definition diff_y :: "t4 \<Rightarrow> t4" where
  "diff_y img =
     (let y_top = tzip4 (-) (slice_h (Some 1) (Some 2) img) (slice_h (Some 0) (Some 1) img);
          y_inner = tzip4 (-) (slice_h (Some 2) None img) (slice_h None (Some (- 2)) img);
          y_bot = tzip4 (-) (slice_h (Some (- 1)) None img)
                            (slice_h (Some (- 2)) (Some (- 1)) img);
          y_out = K_concatenate1 [y_top, y_inner, y_bot]
      in tmap4 (\<lambda>x. x * 0.5) y_out)"

definition diff_xx :: "t4 \<Rightarrow> t4" where
  "diff_xx img =
     (let x_left = tzip4 (+) (slice_w (Some 1) (Some 2) img) (slice_w (Some 0) (Some 1) img);
          x_inner = tzip4 (+) (slice_w (Some 2) None img) (slice_w None (Some (- 2)) img);
          x_right = tzip4 (+) (slice_w (Some (- 1)) None img)
                              (slice_w (Some (- 2)) (Some (- 1)) img);
          x_out = K_concatenate2 [x_left, x_inner, x_right]
      in tzip4 (-) x_out (tmap4 (\<lambda>x. 2 * x) img))"

definition diff_yy :: "t4 \<Rightarrow> t4" where
  "diff_yy img =
     (let y_top = tzip4 (+) (slice_h (Some 1) (Some 2) img) (slice_h (Some 0) (Some 1) img);
          y_inner = tzip4 (+) (slice_h (Some 2) None img) (slice_h None (Some (- 2)) img);
          y_bot = tzip4 (+) (slice_h (Some (- 1)) None img)
                            (slice_h (Some (- 2)) (Some (- 1)) img);
          y_out = K_concatenate1 [y_top, y_inner, y_bot]
      in tzip4 (-) y_out (tmap4 (\<lambda>x. 2 * x) img))"

text \<open>\<^verbatim>\<open>img[:, a:b, c:d, :]\<close>, the slice of \<^verbatim>\<open>_diff_xy\<close>.\<close>

definition slice_hw ::
  "int option \<Rightarrow> int option \<Rightarrow> int option \<Rightarrow> int option \<Rightarrow> t4 \<Rightarrow> t4" where
  "slice_hw a b c d img = slice_w c d (slice_h a b img)"

text \<open>\<^verbatim>\<open>_diff_xy\<close>. The source binds \<^verbatim>\<open>xy_left\<close>, \<^verbatim>\<open>xy_mid\<close> and \<^verbatim>\<open>xy_right\<close> twice, the
  second binding replacing the first, and only then builds \<^verbatim>\<open>xy_out1\<close> and \<^verbatim>\<open>xy_out2\<close>;
  the bindings below follow it line by line.\<close>

definition diff_xy :: "t4 \<Rightarrow> t4" where
  "diff_xy img =
     (let top_left = tzip4 (+) (slice_hw (Some 1) (Some 2) (Some 1) (Some 2) img)
                               (slice_hw (Some 0) (Some 1) (Some 0) (Some 1) img);
          inner_left = tzip4 (+) (slice_hw (Some 2) None (Some 1) (Some 2) img)
                                 (slice_hw None (Some (- 2)) (Some 0) (Some 1) img);
          bot_left = tzip4 (+) (slice_hw (Some (- 1)) None (Some 1) (Some 2) img)
                               (slice_hw (Some (- 2)) (Some (- 1)) (Some 0) (Some 1) img);
          xy_left = K_concatenate1 [top_left, inner_left, bot_left];

          top_mid = tzip4 (+) (slice_hw (Some 1) (Some 2) (Some 2) None img)
                              (slice_hw (Some 0) (Some 1) None (Some (- 2)) img);
          mid_mid = tzip4 (+) (slice_hw (Some 2) None (Some 2) None img)
                              (slice_hw None (Some (- 2)) None (Some (- 2)) img);
          bot_mid = tzip4 (+) (slice_hw (Some (- 1)) None (Some 2) None img)
                              (slice_hw (Some (- 2)) (Some (- 1)) None (Some (- 2)) img);
          xy_mid = K_concatenate1 [top_mid, mid_mid, bot_mid];

          top_right = tzip4 (+) (slice_hw (Some 1) (Some 2) (Some (- 1)) None img)
                                (slice_hw (Some 0) (Some 1) (Some (- 2)) (Some (- 1)) img);
          inner_right = tzip4 (+) (slice_hw (Some 2) None (Some (- 1)) None img)
                                  (slice_hw None (Some (- 2)) (Some (- 2)) (Some (- 1)) img);
          bot_right = tzip4 (+) (slice_hw (Some (- 1)) None (Some (- 1)) None img)
                                (slice_hw (Some (- 2)) (Some (- 1)) (Some (- 2)) (Some (- 1)) img);
          xy_right = K_concatenate1 [top_right, inner_right, bot_right];

          top_left = tzip4 (+) (slice_hw (Some 0) (Some 1) (Some 1) (Some 2) img)
                               (slice_hw (Some 1) (Some 2) (Some 0) (Some 1) img);
          inner_left = tzip4 (+) (slice_hw None (Some (- 2)) (Some 1) (Some 2) img)
                                 (slice_hw (Some 2) None (Some 0) (Some 1) img);
          bot_left = tzip4 (+) (slice_hw (Some (- 2)) (Some (- 1)) (Some 1) (Some 2) img)
                               (slice_hw (Some (- 1)) None (Some 0) (Some 1) img);
          xy_left = K_concatenate1 [top_left, inner_left, bot_left];

          top_mid = tzip4 (+) (slice_hw (Some 0) (Some 1) (Some 2) None img)
                              (slice_hw (Some 1) (Some 2) None (Some (- 2)) img);
          mid_mid = tzip4 (+) (slice_hw None (Some (- 2)) (Some 2) None img)
                              (slice_hw (Some 2) None None (Some (- 2)) img);
          bot_mid = tzip4 (+) (slice_hw (Some (- 2)) (Some (- 1)) (Some 2) None img)
                              (slice_hw (Some (- 1)) None None (Some (- 2)) img);
          xy_mid = K_concatenate1 [top_mid, mid_mid, bot_mid];

          top_right = tzip4 (+) (slice_hw (Some 0) (Some 1) (Some (- 1)) None img)
                                (slice_hw (Some 1) (Some 2) (Some (- 2)) (Some (- 1)) img);
          inner_right = tzip4 (+) (slice_hw None (Some (- 2)) (Some (- 1)) None img)
                                  (slice_hw (Some 2) None (Some (- 2)) (Some (- 1)) img);
          bot_right = tzip4 (+) (slice_hw (Some (- 2)) (Some (- 1)) (Some (- 1)) None img)
                                (slice_hw (Some (- 1)) None (Some (- 2)) (Some (- 1)) img);
          xy_right = K_concatenate1 [top_right, inner_right, bot_right];

          xy_out1 = K_concatenate2 [xy_left, xy_mid, xy_right];
          xy_out2 = K_concatenate2 [xy_left, xy_mid, xy_right]
      in tmap4 (\<lambda>x. x * 0.25) (tzip4 (-) xy_out1 xy_out2))"

text \<open>\<^verbatim>\<open>GradientLoss.__call__\<close>: \<^verbatim>\<open>loss\<close> starts as the Python number \<open>0.0\<close> and the arrays
  are added to it. The five calls of the generalized loss are made in the order of the source,
  and an error of one of them ends the call.\<close>

definition GradientLoss_call :: "GradientLoss \<Rightarrow> t4 \<Rightarrow> t4 \<Rightarrow> error + t3" where
  "GradientLoss_call g y_true y_pred =
     (let gl = GeneralizedLoss_call (generalized_loss g);
          tv_weight = 1;
          tv2_weight = 1;
          loss = 0
      in case gl (diff_x y_true) (diff_x y_pred) of Inl e \<Rightarrow> Inl e | Inr l_x \<Rightarrow>
         case gl (diff_y y_true) (diff_y y_pred) of Inl e \<Rightarrow> Inl e | Inr l_y \<Rightarrow>
         (let loss1 = tmap3 (\<lambda>x. loss + x) (tmap3 (\<lambda>x. tv_weight * x) (tzip3 (+) l_x l_y))
          in case gl (diff_xx y_true) (diff_xx y_pred) of Inl e \<Rightarrow> Inl e | Inr l_xx \<Rightarrow>
             case gl (diff_yy y_true) (diff_yy y_pred) of Inl e \<Rightarrow> Inl e | Inr l_yy \<Rightarrow>
             case gl (diff_xy y_true) (diff_xy y_pred) of Inl e \<Rightarrow> Inl e | Inr l_xy \<Rightarrow>
             (let loss2 = tzip3 (+) loss1
                            (tmap3 (\<lambda>x. tv2_weight * x)
                               (tzip3 (+) (tzip3 (+) l_xx l_yy) (tmap3 (\<lambda>x. x * 2) l_xy)))
              in Inr (tmap3 (\<lambda>x. x / (tv_weight + tv2_weight)) loss2))))"

section \<open>GMSDLoss\<close>

text \<open>\<^verbatim>\<open>GMSDLoss.__call__\<close> raises as its first statement; the edge computation written
  behind the \<^verbatim>\<open>raise\<close> is never reached and has no part in the result.\<close>

definition GMSD_message :: string where
  "GMSD_message = ''GMSD Loss is not currently compatible with PlaidML. Please select a ''
                  @ ''different Loss method.''"

definition GMSDLoss_call :: "t4 \<Rightarrow> t4 \<Rightarrow> error + t3" where
  "GMSDLoss_call y_true y_pred = Inl (FaceswapError GMSD_message)"

section \<open>LossWrapper\<close>

text \<open>The loss functions of this module that a wrapper can hold.\<close>

datatype loss_function =
    DSSIM DSSIMObjective
  | MSSIM MSSIMLoss
  | Generalized GeneralizedLoss
  | LInf
  | Gradient GradientLoss
  | GMSD

text \<open>The value of \<^verbatim>\<open>loss\<close> in the wrapper: the Python number it starts as, or an array of
  rank 0, 1 or 3.\<close>

datatype kvalue =
    PyFloat real
  | Rank0 real
  | Rank1 t1
  | Rank3 t3

record LossWrapper =
  loss_functions :: "loss_function list"
  loss_weights :: "real list"
  mask_channels :: "int list"

definition LossWrapper_init :: LossWrapper where
  "LossWrapper_init = \<lparr>loss_functions = [], loss_weights = [], mask_channels = []\<rparr>"

definition add_loss :: "LossWrapper \<Rightarrow> loss_function \<Rightarrow> real \<Rightarrow> int \<Rightarrow> LossWrapper" where
  "add_loss w func weight mask_channel =
     w\<lparr>loss_functions := loss_functions w @ [func],
       loss_weights := loss_weights w @ [weight],
       mask_channels := mask_channels w @ [mask_channel]\<rparr>"

text \<open>\<^verbatim>\<open>_apply_mask\<close>.\<close>

definition apply_mask :: "t4 \<Rightarrow> t4 \<Rightarrow> int \<Rightarrow> real \<Rightarrow> error + (t4 \<times> t4)" where
  "apply_mask y_true y_pred mask_channel mask_prop =
     (if mask_channel = - 1
      then Inr (slice_c None (Some 3) y_true, slice_c None (Some 3) y_pred)
      else case index_c y_true mask_channel of
             Inl e \<Rightarrow> Inl e
           | Inr ch \<Rightarrow>
              (let mask = K_tile_last 3 (K_expand_dims3 ch);
                   mask_as_k_inv_prop = 1 - mask_prop;
                   mask1 = tmap4 (\<lambda>x. x * mask_prop + mask_as_k_inv_prop) mask;
                   m_true = tzip4 (*) (slice_c None (Some 3) y_true) mask1;
                   m_pred = tzip4 (*) (slice_c None (Some 3) y_pred) mask1
               in Inr (m_true, m_pred)))"

text \<open>\<^verbatim>\<open>K.reshape(x, shape)\<close> to a shape of rank 4: the elements in row-major order, and an
  error when their number is not that of the shape.\<close>

definition K_reshape :: "t4 \<Rightarrow> nat \<times> nat \<times> nat \<times> nat \<Rightarrow> error + t4" where
  "K_reshape t shp =
     (case shp of (n, h, w, c) \<Rightarrow>
        (let flat = concat (concat (concat t))
         in if length flat = n * h * w * c
            then Inr (tab n (\<lambda>i0. tab h (\<lambda>i1. tab w (\<lambda>i2. tab c (\<lambda>i3.
                        flat ! (((i0 * h + i1) * w + i2) * c + i3))))))
            else Inl ValueError))"

definition int_shape :: "t4 \<Rightarrow> nat \<times> nat \<times> nat \<times> nat" where
  "int_shape t = (length t, dim1 t, dim2 t, dim3 t)"

text \<open>Calling a registered loss: the function as the call leaves it (only the multiscale
  loss changes), and its result or error.\<close>

fun call_loss :: "loss_function \<Rightarrow> t4 \<Rightarrow> t4 \<Rightarrow> loss_function \<times> (error + kvalue)" where
  "call_loss (DSSIM s) y_true y_pred = (DSSIM s, Inr (Rank0 (DSSIMObjective_call s y_true y_pred)))"
| "call_loss (MSSIM s) y_true y_pred =
     (case MSSIMLoss_call s y_true y_pred of
        (s1, Inl e) \<Rightarrow> (MSSIM s1, Inl e)
      | (s1, Inr v) \<Rightarrow> (MSSIM s1, Inr (Rank0 v)))"
| "call_loss (Generalized g) y_true y_pred =
     (Generalized g,
      case GeneralizedLoss_call g y_true y_pred of Inl e \<Rightarrow> Inl e | Inr v \<Rightarrow> Inr (Rank3 v))"
| "call_loss LInf y_true y_pred = (LInf, Inr (Rank3 (LInfNorm_call y_true y_pred)))"
| "call_loss (Gradient g) y_true y_pred =
     (Gradient g,
      case GradientLoss_call g y_true y_pred of Inl e \<Rightarrow> Inl e | Inr v \<Rightarrow> Inr (Rank3 v))"
| "call_loss GMSD y_true y_pred =
     (GMSD, case GMSDLoss_call y_true y_pred of Inl e \<Rightarrow> Inl e | Inr v \<Rightarrow> Inr (Rank3 v))"

text \<open>\<^verbatim>\<open>isinstance(func, DSSIMObjective)\<close>: the class itself and its subclass.\<close>

fun is_DSSIMObjective :: "loss_function \<Rightarrow> bool" where
  "is_DSSIMObjective (DSSIM _) = True"
| "is_DSSIMObjective (MSSIM _) = True"
| "is_DSSIMObjective _ = False"

text \<open>\<^verbatim>\<open>K.mean(this_loss, axis=list(range(1, K.ndim(this_loss))))\<close>, the product with a
  weight, and \<^verbatim>\<open>loss += ...\<close> with a scalar spread over an array.\<close>

fun mean_past_batch :: "kvalue \<Rightarrow> kvalue" where
  "mean_past_batch (Rank3 t) = Rank1 (map (\<lambda>im. mean_list (concat im)) t)"
| "mean_past_batch v = v"

fun times_weight :: "kvalue \<Rightarrow> real \<Rightarrow> kvalue" where
  "times_weight (PyFloat x) w = PyFloat (x * w)"
| "times_weight (Rank0 x) w = Rank0 (x * w)"
| "times_weight (Rank1 v) w = Rank1 (map (\<lambda>x. x * w) v)"
| "times_weight (Rank3 t) w = Rank3 (tmap3 (\<lambda>x. x * w) t)"

fun add_value :: "kvalue \<Rightarrow> kvalue \<Rightarrow> kvalue" where
  "add_value (PyFloat a) (PyFloat b) = PyFloat (a + b)"
| "add_value (PyFloat a) (Rank0 b) = Rank0 (a + b)"
| "add_value (PyFloat a) (Rank1 v) = Rank1 (map (\<lambda>x. a + x) v)"
| "add_value (PyFloat a) (Rank3 t) = Rank3 (tmap3 (\<lambda>x. a + x) t)"
| "add_value (Rank0 a) (PyFloat b) = Rank0 (a + b)"
| "add_value (Rank0 a) (Rank0 b) = Rank0 (a + b)"
| "add_value (Rank0 a) (Rank1 v) = Rank1 (map (\<lambda>x. a + x) v)"
| "add_value (Rank0 a) (Rank3 t) = Rank3 (tmap3 (\<lambda>x. a + x) t)"
| "add_value (Rank1 u) (PyFloat b) = Rank1 (map (\<lambda>x. x + b) u)"
| "add_value (Rank1 u) (Rank0 b) = Rank1 (map (\<lambda>x. x + b) u)"
| "add_value (Rank1 u) (Rank1 v) = Rank1 (tzip1 (+) u v)"
| "add_value (Rank1 u) (Rank3 t) = Rank3 (tmap2 (\<lambda>row. tzip1 (+) u row) t)"
| "add_value (Rank3 t) (PyFloat b) = Rank3 (tmap3 (\<lambda>x. x + b) t)"
| "add_value (Rank3 t) (Rank0 b) = Rank3 (tmap3 (\<lambda>x. x + b) t)"
| "add_value (Rank3 t) (Rank1 v) = Rank3 (tmap2 (\<lambda>row. tzip1 (+) row v) t)"
| "add_value (Rank3 t) (Rank3 u) = Rank3 (tzip3 (+) t u)"

text \<open>The first lines of the body of the loop of \<^verbatim>\<open>LossWrapper.__call__\<close>: the pair the
  loss is called with. The mask is applied, and for a loss that is a \<^verbatim>\<open>DSSIMObjective\<close> the
  masked prediction is reshaped to the shape of the prediction as it came in.\<close>

definition loss_inputs :: "t4 \<Rightarrow> t4 \<Rightarrow> loss_function \<Rightarrow> int \<Rightarrow> error + (t4 \<times> t4)" where
  "loss_inputs y_true y_pred func mask_channel =
     (case apply_mask y_true y_pred mask_channel 1 of
        Inl e \<Rightarrow> Inl e
      | Inr (n_true, n_pred) \<Rightarrow>
         (if is_DSSIMObjective func
          then (case K_reshape n_pred (int_shape y_pred) of
                  Inl e \<Rightarrow> Inl e
                | Inr n_pred1 \<Rightarrow> Inr (n_true, n_pred1))
          else Inr (n_true, n_pred)))"

text \<open>The body of the loop: the function as the pass leaves it, and the new value of
  \<^verbatim>\<open>loss\<close> or the error that ends the call.\<close>

definition wrapper_step ::
  "t4 \<Rightarrow> t4 \<Rightarrow> loss_function \<Rightarrow> real \<Rightarrow> int \<Rightarrow> kvalue \<Rightarrow> loss_function \<times> (error + kvalue)" where
  "wrapper_step y_true y_pred func weight mask_channel loss =
     (case loss_inputs y_true y_pred func mask_channel of
        Inl e \<Rightarrow> (func, Inl e)
      | Inr (n_true, n_pred) \<Rightarrow>
         (case call_loss func n_true n_pred of
            (func1, Inl e) \<Rightarrow> (func1, Inl e)
          | (func1, Inr this_loss) \<Rightarrow>
             (func1, Inr (add_value loss
                            (times_weight (mean_past_batch this_loss) weight)))))"

text \<open>The loop over the zipped registrations. An error of a pass ends the call; the
  functions are returned as the call leaves them.\<close>

fun wrapper_loop ::
  "t4 \<Rightarrow> t4 \<Rightarrow> (loss_function \<times> real \<times> int) list \<Rightarrow> kvalue
     \<Rightarrow> loss_function list \<times> (error + kvalue)" where
  "wrapper_loop y_true y_pred [] loss = ([], Inr loss)"
| "wrapper_loop y_true y_pred ((func, weight, mask_channel) # rest) loss =
     (case wrapper_step y_true y_pred func weight mask_channel loss of
        (func1, Inl e) \<Rightarrow> (func1 # map fst rest, Inl e)
      | (func1, Inr loss1) \<Rightarrow>
         (case wrapper_loop y_true y_pred rest loss1 of
            (funcs, r) \<Rightarrow> (func1 # funcs, r)))"

definition LossWrapper_call :: "LossWrapper \<Rightarrow> t4 \<Rightarrow> t4 \<Rightarrow> LossWrapper \<times> (error + kvalue)" where
  "LossWrapper_call w y_true y_pred =
     (let loss = PyFloat 0;
          regs = zip (loss_functions w) (zip (loss_weights w) (mask_channels w))
      in case wrapper_loop y_true y_pred regs loss of
           (funcs, r) \<Rightarrow>
             (w\<lparr>loss_functions := funcs @ drop (length regs) (loss_functions w)\<rparr>, r))"

section \<open>What the spec says of the masking\<close>



section \<open>What the spec says of the generalized loss\<close>

text \<open>The formula of the spec for one difference \<open>d\<close>, and the loss the spec states: the
  formula averaged over the channels of every pixel, then multiplied by \<^verbatim>\<open>beta\<close>.\<close>

definition robust_term :: "real \<Rightarrow> real \<Rightarrow> real \<Rightarrow> real" where
  "robust_term a b d = (\<bar>2 - a\<bar> / a) * ((((d / b)\<^sup>2 / \<bar>2 - a\<bar> + 1) powr (a / 2)) - 1)"

definition GeneralizedLoss_spec :: "GeneralizedLoss \<Rightarrow> t4 \<Rightarrow> t4 \<Rightarrow> t3" where
  "GeneralizedLoss_spec g y_true y_pred =
     tab (length y_true) (\<lambda>n. tab (dim1 y_true) (\<lambda>i. tab (dim2 y_true) (\<lambda>j.
       (\<Sum>c\<leftarrow>[0..<dim3 y_true].
           robust_term (alpha g) (beta g) (y_pred ! n ! i ! j ! c - y_true ! n ! i ! j ! c))
       / real (dim3 y_true) * beta g)))"

section \<open>What the spec says of the DSSIM loss\<close>


section \<open>What the spec says of the multiscale loss at a single scale\<close>


section \<open>Shapes and positions\<close>

lemma length_tab [simp]: "length (tab n f) = n"
  by (simp add: tab_def)

lemma nth_tab [simp]: "i < n \<Longrightarrow> tab n f ! i = f i"
  by (simp add: tab_def)

lemma shape2_iff:
  "shape2 a b t \<longleftrightarrow> length t = a \<and> (\<forall>i<a. length (t ! i) = b)"
  by (auto simp: shape2_def list_all_length)

lemma shape3_iff:
  "shape3 a b c t \<longleftrightarrow> length t = a \<and> (\<forall>i<a. shape2 b c (t ! i))"
  by (auto simp: shape3_def list_all_length)

lemma shape4_iff:
  "shape4 a b c d t \<longleftrightarrow> length t = a \<and> (\<forall>i<a. shape3 b c d (t ! i))"
  by (auto simp: shape4_def list_all_length)

lemma shape4_length: "shape4 a b c d t \<Longrightarrow> length t = a"
  by (simp add: shape4_iff)

lemma shape4_nth: "shape4 a b c d t \<Longrightarrow> n < a \<Longrightarrow> shape3 b c d (t ! n)"
  by (simp add: shape4_iff)

lemma shape3_length: "shape3 a b c t \<Longrightarrow> length t = a"
  by (simp add: shape3_iff)

lemma shape3_nth: "shape3 a b c t \<Longrightarrow> i < a \<Longrightarrow> shape2 b c (t ! i)"
  by (simp add: shape3_iff)

lemma shape2_length: "shape2 a b t \<Longrightarrow> length t = a"
  by (simp add: shape2_iff)

lemma shape2_nth: "shape2 a b t \<Longrightarrow> i < a \<Longrightarrow> length (t ! i) = b"
  by (simp add: shape2_iff)

lemma length_tzip1 [simp]: "length (tzip1 f xs ys) = min (length xs) (length ys)"
  by (simp add: tzip1_def)

lemma nth_tzip1 [simp]:
  "i < length xs \<Longrightarrow> i < length ys \<Longrightarrow> tzip1 f xs ys ! i = f (xs ! i) (ys ! i)"
  by (simp add: tzip1_def)

lemma tzip1_map_same: "tzip1 g (map f1 xs) (map f2 xs) = map (\<lambda>x. g (f1 x) (f2 x)) xs"
  by (induction xs) (simp_all add: tzip1_def)

lemma tzip1_map_map: "tzip1 g (map f1 xs) (map f2 ys) = tzip1 (\<lambda>x y. g (f1 x) (f2 y)) xs ys"
  by (simp add: tzip1_def zip_map_map split_def)

lemma tzip1_map_left: "tzip1 g (map f1 xs) ys = tzip1 (\<lambda>x y. g (f1 x) y) xs ys"
  using tzip1_map_map [of g f1 xs "\<lambda>y. y" ys] by simp

lemma tzip1_map_right: "tzip1 g xs (map f2 ys) = tzip1 (\<lambda>x y. g x (f2 y)) xs ys"
  using tzip1_map_map [of g "\<lambda>x. x" xs f2 ys] by simp

lemma map_tzip1: "map h (tzip1 g xs ys) = tzip1 (\<lambda>x y. h (g x y)) xs ys"
  by (simp add: tzip1_def split_def)

lemma shape4_lengths:
  assumes "shape4 N H W C t"
  shows "length t = N"
    and "n < N \<Longrightarrow> length (t ! n) = H"
    and "n < N \<Longrightarrow> i < H \<Longrightarrow> length (t ! n ! i) = W"
    and "n < N \<Longrightarrow> i < H \<Longrightarrow> j < W \<Longrightarrow> length (t ! n ! i ! j) = C"
  using assms by (auto simp: shape4_iff shape3_iff shape2_iff)

lemma shape3_lengths:
  assumes "shape3 N H W t"
  shows "length t = N"
    and "n < N \<Longrightarrow> length (t ! n) = H"
    and "n < N \<Longrightarrow> i < H \<Longrightarrow> length (t ! n ! i) = W"
  using assms by (auto simp: shape3_iff shape2_iff)


lemma shape3I:
  assumes "length t = N"
    and "\<And>n. n < N \<Longrightarrow> length (t ! n) = H"
    and "\<And>n i. n < N \<Longrightarrow> i < H \<Longrightarrow> length (t ! n ! i) = W"
  shows "shape3 N H W t"
  using assms by (auto simp: shape3_iff shape2_iff)



lemma nth_tmap3:
  "n < length t \<Longrightarrow> i < length (t ! n) \<Longrightarrow> j < length (t ! n ! i) \<Longrightarrow>
   tmap3 f t ! n ! i ! j = f (t ! n ! i ! j)"
  by (simp add: tmap3_def tmap2_def)

lemma nth_tzip3:
  "n < length a \<Longrightarrow> n < length b \<Longrightarrow> i < length (a ! n) \<Longrightarrow> i < length (b ! n) \<Longrightarrow>
   j < length (a ! n ! i) \<Longrightarrow> j < length (b ! n ! i) \<Longrightarrow>
   tzip3 f a b ! n ! i ! j = f (a ! n ! i ! j) (b ! n ! i ! j)"
  by (simp add: tzip3_def tzip2_def)

lemma dim3_shape4: "shape4 N H W C t \<Longrightarrow> 0 < N \<Longrightarrow> 0 < H \<Longrightarrow> 0 < W \<Longrightarrow> dim3 t = C"
  by (cases t; cases "hd t"; cases "hd (hd t)")
     (auto simp: dim3_def dim2_def dim1_def shape4_def shape3_def shape2_def)

lemma dims_shape4:
  assumes "shape4 N H W C t" "0 < N" "0 < H" "0 < W"
  shows "length t = N" "dim1 t = H" "dim2 t = W" "dim3 t = C"
proof -
  show "length t = N" using assms by (simp add: shape4_lengths)
  show "dim3 t = C" using assms by (rule dim3_shape4)
  show "dim1 t = H" using assms
    by (cases t) (auto simp: dim1_def shape4_def shape3_def)
  show "dim2 t = W" using assms
    by (cases t; cases "hd t") (auto simp: dim2_def dim1_def shape4_def shape3_def shape2_def)
qed


lemma t3_eqI:
  assumes a: "shape3 N H W a" and b: "shape3 N H W b"
    and e: "\<And>n i j. n < N \<Longrightarrow> i < H \<Longrightarrow> j < W \<Longrightarrow> a ! n ! i ! j = b ! n ! i ! j"
  shows "a = b"
proof (rule nth_equalityI)
  show "length a = length b" using a b by (simp add: shape3_lengths)
  fix n assume "n < length a"
  then have n: "n < N" using a by (simp add: shape3_lengths)
  show "a ! n = b ! n"
  proof (rule nth_equalityI)
    show "length (a ! n) = length (b ! n)" using a b n by (simp add: shape3_lengths)
    fix i assume "i < length (a ! n)"
    then have i: "i < H" using a n by (simp add: shape3_lengths)
    show "a ! n ! i = b ! n ! i"
    proof (rule nth_equalityI)
      show "length (a ! n ! i) = length (b ! n ! i)" using a b n i by (simp add: shape3_lengths)
      fix j assume "j < length (a ! n ! i)"
      then have "j < W" using a n i by (simp add: shape3_lengths)
      then show "a ! n ! i ! j = b ! n ! i ! j" using e n i by simp
    qed
  qed
qed

lemma shape3_tab: "shape3 N H W (tab N (\<lambda>n. tab H (\<lambda>i. tab W (\<lambda>j. f n i j))))"
  by (rule shape3I) simp_all


lemma list_all_tzip1:
  assumes "list_all P xs" "list_all Q ys" "\<And>x y. P x \<Longrightarrow> Q y \<Longrightarrow> R (f x y)"
  shows "list_all R (tzip1 f xs ys)"
  using assms(1,2)
proof (induction xs arbitrary: ys)
  case Nil
  then show ?case by (simp add: tzip1_def)
next
  case (Cons x xs)
  then show ?case by (cases ys) (auto simp: tzip1_def assms(3))
qed

lemma length_tzip1_same: "length xs = n \<Longrightarrow> length ys = n \<Longrightarrow> length (tzip1 f xs ys) = n"
  by simp

lemma shape2_tzip:
  "shape2 a b x \<Longrightarrow> shape2 a b y \<Longrightarrow> shape2 a b (tzip1 (tzip1 f) x y)"
  unfolding shape2_def by (auto intro: list_all_tzip1 [where P = "\<lambda>x. length x = b" and Q = "\<lambda>x. length x = b"])

lemma shape3_tzip:
  "shape3 a b c x \<Longrightarrow> shape3 a b c y \<Longrightarrow> shape3 a b c (tzip1 (tzip1 (tzip1 f)) x y)"
  unfolding shape3_def
  by (auto intro: list_all_tzip1 [where P = "shape2 b c" and Q = "shape2 b c"] shape2_tzip)

lemma shape4_tzip4:
  "shape4 a b c d x \<Longrightarrow> shape4 a b c d y \<Longrightarrow> shape4 a b c d (tzip4 f x y)"
  unfolding shape4_def tzip4_def tzip3_def tzip2_def
  by (auto intro: list_all_tzip1 [where P = "shape3 b c d" and Q = "shape3 b c d"] shape3_tzip)

lemma shape4_tmap4: "shape4 a b c d x \<Longrightarrow> shape4 a b c d (tmap4 f x)"
  by (simp add: shape4_def shape3_def shape2_def tmap4_def tmap3_def tmap2_def list_all_iff)

lemma shape2_append: "shape2 a c x \<Longrightarrow> shape2 b c y \<Longrightarrow> shape2 (a + b) c (x @ y)"
  by (simp add: shape2_def)

lemma shape3_append: "shape3 a c d x \<Longrightarrow> shape3 b c d y \<Longrightarrow> shape3 (a + b) c d (x @ y)"
  by (simp add: shape3_def)

lemma shape3_append_rows:
  "shape3 a b d x \<Longrightarrow> shape3 a c d y \<Longrightarrow> shape3 a (b + c) d (tzip1 (@) x y)"
  unfolding shape3_def
  by (auto intro: list_all_tzip1 [where P = "shape2 b d" and Q = "shape2 c d"] shape2_append)

lemma shape4_concatenate1:
  assumes "shape4 n a c d x" "shape4 n b c d y" "shape4 n e c d z"
  shows "shape4 n (a + (b + e)) c d (K_concatenate1 [x, y, z])"
proof -
  have "shape4 n (b + e) c d (tzip1 (@) y z)"
    using assms(2,3) unfolding shape4_def
    by (auto intro: list_all_tzip1 [where P = "shape3 b c d" and Q = "shape3 e c d"] shape3_append)
  with assms(1) show ?thesis unfolding shape4_def
    by (auto intro: list_all_tzip1 [where P = "shape3 a c d" and Q = "shape3 (b + e) c d"]
        shape3_append)
qed

lemma shape4_concatenate2:
  assumes "shape4 n h a d x" "shape4 n h b d y" "shape4 n h e d z"
  shows "shape4 n h (a + (b + e)) d (K_concatenate2 [x, y, z])"
proof -
  have "shape4 n h (b + e) d (tzip1 (tzip1 (@)) y z)"
    using assms(2,3) unfolding shape4_def
    by (auto intro: list_all_tzip1 [where P = "shape3 h b d" and Q = "shape3 h e d"]
        shape3_append_rows)
  with assms(1) have "shape4 n h (a + (b + e)) d (tzip1 (tzip1 (@)) x (tzip1 (tzip1 (@)) y z))"
    unfolding shape4_def
    by (auto intro: list_all_tzip1 [where P = "shape3 h a d" and Q = "shape3 h (b + e) d"]
        shape3_append_rows)
  then show ?thesis by (simp add: tzip2_def)
qed

text \<open>The length of a slice, and the six slices of the gradient loss.\<close>

lemma length_py_slice: "length (py_slice lo hi xs) = slice_len lo hi (length xs)"
  by (simp add: py_slice_def slice_len_def Let_def)

lemma list_all_py_slice: "list_all P xs \<Longrightarrow> list_all P (py_slice lo hi xs)"
  by (auto simp: py_slice_def Let_def list_all_iff dest!: in_set_takeD in_set_dropD)

lemma slice_len_cases:
  "2 \<le> n \<Longrightarrow> slice_len (Some 1) (Some 2) n = 1"
  "2 \<le> n \<Longrightarrow> slice_len (Some 0) (Some 1) n = 1"
  "2 \<le> n \<Longrightarrow> slice_len (Some 2) None n = n - 2"
  "2 \<le> n \<Longrightarrow> slice_len None (Some (- 2)) n = n - 2"
  "2 \<le> n \<Longrightarrow> slice_len (Some (- 1)) None n = 1"
  "2 \<le> n \<Longrightarrow> slice_len (Some (- 2)) (Some (- 1)) n = 1"
  by (auto simp: slice_len_def slice_index_def)

lemma shape2_py_slice: "shape2 w c row \<Longrightarrow> shape2 (slice_len lo hi w) c (py_slice lo hi row)"
  by (simp add: shape2_def length_py_slice list_all_py_slice)

lemma shape3_py_slice: "shape3 h w c im \<Longrightarrow> shape3 (slice_len lo hi h) w c (py_slice lo hi im)"
  by (simp add: shape3_def length_py_slice list_all_py_slice)

lemma shape3_slice_rows:
  "shape3 h w c im \<Longrightarrow> shape3 h (slice_len lo hi w) c (map (py_slice lo hi) im)"
  by (simp add: shape3_def list_all_iff shape2_py_slice)

lemma shape4_slice_h:
  "shape4 n h w c t \<Longrightarrow> shape4 n (slice_len lo hi h) w c (slice_h lo hi t)"
  by (simp add: shape4_def slice_h_def list_all_iff shape3_py_slice)

lemma shape4_slice_w:
  "shape4 n h w c t \<Longrightarrow> shape4 n h (slice_len lo hi w) c (slice_w lo hi t)"
  by (simp add: shape4_def slice_w_def list_all_iff shape3_slice_rows)

lemma shape4_slice_hw:
  "shape4 n h w c t \<Longrightarrow>
   shape4 n (slice_len a b h) (slice_len lo hi w) c (slice_hw a b lo hi t)"
  unfolding slice_hw_def by (intro shape4_slice_w shape4_slice_h)

lemma shape4_slice_hw_len:
  "shape4 n h w c t \<Longrightarrow> slice_len a b h = h' \<Longrightarrow> slice_len lo hi w = w' \<Longrightarrow>
   shape4 n h' w' c (slice_hw a b lo hi t)"
  using shape4_slice_hw by blast

lemma shape4_slice_h_len:
  "shape4 n h w c t \<Longrightarrow> slice_len a b h = h' \<Longrightarrow> shape4 n h' w c (slice_h a b t)"
  using shape4_slice_h by blast

lemma shape4_slice_w_len:
  "shape4 n h w c t \<Longrightarrow> slice_len a b w = w' \<Longrightarrow> shape4 n h w' c (slice_w a b t)"
  using shape4_slice_w by blast

lemma tzip1_same: "tzip1 f xs xs = map (\<lambda>x. f x x) xs"
  by (induction xs) (simp_all add: tzip1_def)

lemma tzip4_same: "tzip4 f t t = tmap4 (\<lambda>x. f x x) t"
  by (simp add: tzip4_def tzip3_def tzip2_def tmap4_def tmap3_def tmap2_def tzip1_same)

lemma map_const_replicate: "list_all (\<lambda>x. f x = v) xs \<Longrightarrow> map f xs = replicate (length xs) v"
  by (induction xs) simp_all

lemma tmap4_const:
  assumes "shape4 n h w c t"
  shows "tmap4 (\<lambda>x. v) t = replicate n (replicate h (replicate w (replicate c v)))"
proof -
  have 1: "map (\<lambda>x. v) px = replicate c v" if "length px = c" for px :: "'a list"
    using that by (simp add: map_replicate_const)
  have 2: "map (map (\<lambda>x. v)) row = replicate w (replicate c v)" if "shape2 w c row"
    for row :: "'a list list"
    using that map_const_replicate [of "map (\<lambda>x. v)" "replicate c v" row]
    by (simp add: shape2_def list_all_iff 1)
  have 3: "map (map (map (\<lambda>x. v))) im = replicate h (replicate w (replicate c v))"
    if "shape3 h w c im" for im :: "'a list list list"
    using that map_const_replicate [of "map (map (\<lambda>x. v))" "replicate w (replicate c v)" im]
    by (simp add: shape3_def list_all_iff 2)
  show ?thesis
    using assms
      map_const_replicate [of "map (map (map (\<lambda>x. v)))" "replicate h (replicate w (replicate c v))" t]
    by (simp add: shape4_def list_all_iff 3 tmap4_def tmap3_def tmap2_def)
qed


lemma sum_list_nth: "sum_list xs = (\<Sum>c\<leftarrow>[0..<length xs]. xs ! c)"
  by (simp add: map_nth)

lemma tmap4_tmap4: "tmap4 f (tmap4 g t) = tmap4 (\<lambda>x. f (g x)) t"
  by (simp add: tmap4_def tmap3_def tmap2_def comp_def)

lemma tmap4_tzip4: "tmap4 f (tzip4 g a b) = tzip4 (\<lambda>x y. f (g x y)) a b"
  by (simp add: tmap4_def tmap3_def tmap2_def tzip4_def tzip3_def tzip2_def map_tzip1)


section \<open>Convolution\<close>

lemma dims_shape3:
  assumes "shape3 H W C im" "0 < H" "0 < W"
  shows "length im = H" "dim1 im = W" "dim2 im = C"
proof -
  show "length im = H" using assms by (simp add: shape3_lengths)
  show "dim1 im = W" using assms by (cases im) (auto simp: dim1_def shape3_def shape2_def)
  show "dim2 im = C" using assms
    by (cases im; cases "hd im") (auto simp: dim2_def dim1_def shape3_def shape2_def)
qed

lemma shape3_tab_tab_tab:
  "shape3 H W C (tab H (\<lambda>i. tab W (\<lambda>j. tab C (f i j))))"
  by (simp add: shape3_iff shape2_iff)

lemma nth_tmap4:
  assumes "shape4 N H W C t" "n < N" "i < H" "j < W" "c < C"
  shows "tmap4 f t ! n ! i ! j ! c = f (t ! n ! i ! j ! c)"
  using assms shape4_lengths [OF assms(1)] by (simp add: tmap4_def tmap3_def tmap2_def)

lemma nth_tzip4:
  assumes "shape4 N H W C a" "shape4 N H W C b" "n < N" "i < H" "j < W" "c < C"
  shows "tzip4 f a b ! n ! i ! j ! c = f (a ! n ! i ! j ! c) (b ! n ! i ! j ! c)"
  using assms shape4_lengths [OF assms(1)] shape4_lengths [OF assms(2)]
  by (simp add: tzip4_def tzip3_def tzip2_def)

text \<open>A kernel of one 2-dimensional window repeated over the channels.\<close>

lemma shape4_conv:
  assumes y: "shape4 N H W C y" and pos: "0 < H" "0 < W"
    and k: "length k = kh" "dim1 k = kw" "dim2 k = C"
  shows "shape4 N (H + 1 - kh) (W + 1 - kw) C (depthwise_conv2d y k)"
proof -
  have "shape3 (H + 1 - kh) (W + 1 - kw) C (conv_image im k)" if "shape3 H W C im" for im
    using dims_shape3 [OF that pos] k unfolding conv_image_def
    by (simp add: shape3_tab_tab_tab)
  then show ?thesis using y
    by (simp add: shape4_def depthwise_conv2d_def list_all_iff)
qed

lemma nth_conv:
  assumes y: "shape4 N H W C y" and pos: "0 < H" "0 < W"
    and k: "length k = kh" "dim1 k = kw" "dim2 k = C"
    and n: "n < N" and i: "i < H + 1 - kh" and j: "j < W + 1 - kw" and c: "c < C"
  shows "depthwise_conv2d y k ! n ! i ! j ! c
         = (\<Sum>a\<leftarrow>[0..<kh]. \<Sum>b\<leftarrow>[0..<kw]. y ! n ! (i + a) ! (j + b) ! c * k ! a ! b ! c ! 0)"
proof -
  have s3: "shape3 H W C (y ! n)" using y n by (rule shape4_nth)
  show ?thesis
    using dims_shape3 [OF s3 pos] k n i j c shape4_length [OF y]
    by (simp add: depthwise_conv2d_def conv_image_def)
qed

section \<open>Weighted means\<close>

lemma weighted_square_mean:
  fixes w x :: "'i \<Rightarrow> real"
  assumes fin: "finite I" and nonneg: "\<And>i. i \<in> I \<Longrightarrow> 0 \<le> w i" and one: "(\<Sum>i\<in>I. w i) = 1"
  shows "(\<Sum>i\<in>I. x i * w i)\<^sup>2 \<le> (\<Sum>i\<in>I. (x i)\<^sup>2 * w i)"
proof -
  define m where "m = (\<Sum>i\<in>I. x i * w i)"
  have "0 \<le> (\<Sum>i\<in>I. w i * (x i - m)\<^sup>2)"
    by (intro sum_nonneg mult_nonneg_nonneg nonneg) simp_all
  also have "(\<Sum>i\<in>I. w i * (x i - m)\<^sup>2)
             = (\<Sum>i\<in>I. (x i)\<^sup>2 * w i - 2 * m * (x i * w i) + m\<^sup>2 * w i)"
    by (intro sum.cong refl) (simp add: power2_eq_square algebra_simps)
  also have "\<dots> = (\<Sum>i\<in>I. (x i)\<^sup>2 * w i) - 2 * m * (\<Sum>i\<in>I. x i * w i) + m\<^sup>2 * (\<Sum>i\<in>I. w i)"
    by (simp add: sum.distrib sum_subtractf sum_distrib_left)
  also have "\<dots> = (\<Sum>i\<in>I. (x i)\<^sup>2 * w i) - m\<^sup>2"
    by (simp add: one m_def [symmetric] power2_eq_square)
  finally show ?thesis by (simp add: m_def)
qed

lemma sum_list_window:
  "(\<Sum>a\<leftarrow>[0..<n]. \<Sum>b\<leftarrow>[0..<m]. f a b) = (\<Sum>(a, b)\<in>{0..<n} \<times> {0..<m}. f a b)"
  by (simp add: interv_sum_list_conv_sum_set_nat sum.cartesian_product)

lemma window_square_mean:
  fixes w x :: "nat \<Rightarrow> nat \<Rightarrow> real"
  assumes nonneg: "\<And>a b. a < n \<Longrightarrow> b < m \<Longrightarrow> 0 \<le> w a b"
    and one: "(\<Sum>a\<leftarrow>[0..<n]. \<Sum>b\<leftarrow>[0..<m]. w a b) = 1"
  shows "(\<Sum>a\<leftarrow>[0..<n]. \<Sum>b\<leftarrow>[0..<m]. x a b * w a b)\<^sup>2
         \<le> (\<Sum>a\<leftarrow>[0..<n]. \<Sum>b\<leftarrow>[0..<m]. (x a b)\<^sup>2 * w a b)"
proof -
  have "(\<Sum>p\<in>{0..<n} \<times> {0..<m}. (case p of (a, b) \<Rightarrow> x a b) * (case p of (a, b) \<Rightarrow> w a b))\<^sup>2
        \<le> (\<Sum>p\<in>{0..<n} \<times> {0..<m}. (case p of (a, b) \<Rightarrow> x a b)\<^sup>2 * (case p of (a, b) \<Rightarrow> w a b))"
  proof (rule weighted_square_mean)
    show "finite ({0..<n} \<times> {0..<m})" by simp
    show "0 \<le> (case i of (a, b) \<Rightarrow> w a b)" if "i \<in> {0..<n} \<times> {0..<m}" for i
      using that nonneg by auto
    show "(\<Sum>i\<in>{0..<n} \<times> {0..<m}. case i of (a, b) \<Rightarrow> w a b) = 1"
      using one by (simp add: sum_list_window)
  qed
  then show ?thesis by (simp add: sum_list_window split_def)
qed

section \<open>The kernel\<close>

lemma sum_list_softmax: "xs \<noteq> [] \<Longrightarrow> sum_list (K_softmax xs) = 1"
proof -
  assume "xs \<noteq> []"
  then have "0 < (\<Sum>y\<leftarrow>xs. exp y)"
    by (cases xs) (auto intro!: add_pos_nonneg sum_list_nonneg)
  then show ?thesis
    by (simp add: K_softmax_def divide_inverse sum_list_mult_const comp_def)
qed

lemma softmax_pos: "i < length xs \<Longrightarrow> 0 < K_softmax xs ! i"
proof -
  assume i: "i < length xs"
  then have "xs \<noteq> []" by auto
  then have "0 < (\<Sum>y\<leftarrow>xs. exp y)"
    by (cases xs) (auto intro!: add_pos_nonneg sum_list_nonneg)
  with i show ?thesis by (simp add: K_softmax_def)
qed

lemma sum_list_rows:
  "(\<Sum>a\<leftarrow>[0..<n]. \<Sum>b\<leftarrow>[0..<m]. f (a * m + b)) = (\<Sum>i\<leftarrow>[0..<n * m]. f i)"
proof (induction n)
  case 0
  show ?case by simp
next
  case (Suc n)
  have "[0..<Suc n * m] = [0..<n * m] @ map (\<lambda>b. n * m + b) [0..<m]"
    using upt_add_eq_append [of 0 "n * m" m] map_add_upt [of "n * m" m]
    by (simp add: add.commute)
  then show ?case using Suc by (simp add: comp_def)
qed

lemma length_bowl:
  "length (concat (map (\<lambda>a. map (\<lambda>b. g b a) row) row)) = length row * length row"
  by (simp add: length_concat comp_def sum_list_triv)

lemma get_kernel_weights:
  assumes n: "filter_size s = n" and pos: "0 < n"
  obtains w :: "nat \<Rightarrow> nat \<Rightarrow> real" where
    "\<And>a b. a < n \<Longrightarrow> b < n \<Longrightarrow> get_kernel s ! a ! b = [[w a b]]"
    "\<And>a b. a < n \<Longrightarrow> b < n \<Longrightarrow> 0 < w a b"
    "(\<Sum>a\<leftarrow>[0..<n]. \<Sum>b\<leftarrow>[0..<n]. w a b) = 1"
proof -
  define row where
    "row = map (\<lambda>c. K_square c * (- 0.5 / K_square (filter_sigma s)))
             (map (\<lambda>i. real i - (real n - 1) / 2) [0..<n])"
  define flat where "flat = K_softmax (concat (map (\<lambda>a. map (\<lambda>b. b + a) row) row))"
  have lr: "length row = n" by (simp add: row_def)
  have lf: "length flat = n * n"
    unfolding flat_def K_softmax_def using length_bowl [of "\<lambda>b a. b + a" row] lr by simp
  have ne: "concat (map (\<lambda>a. map (\<lambda>b. b + a) row) row) \<noteq> []"
    using length_bowl [of "\<lambda>b a. b + a" row] lr pos by (metis length_0_conv mult_is_0 not_less0)
  have k: "get_kernel s = tab n (\<lambda>a. tab n (\<lambda>b. [[flat ! (a * n + b)]]))"
    by (simp only: get_kernel_def Let_def n flat_def row_def)
  show thesis
  proof (rule that [of "\<lambda>a b. flat ! (a * n + b)"])
    show "get_kernel s ! a ! b = [[flat ! (a * n + b)]]" if "a < n" "b < n" for a b
      using that by (simp add: k)
    show "0 < flat ! (a * n + b)" if "a < n" "b < n" for a b
    proof -
      have "a * n + b < n * n"
      proof -
        have "a * n + b < a * n + n" using that by simp
        also have "\<dots> = (a + 1) * n" by simp
        also have "\<dots> \<le> n * n" using that(1) by (intro mult_le_mono) simp_all
        finally show ?thesis .
      qed
      then show ?thesis unfolding flat_def using lf [unfolded flat_def]
        by (intro softmax_pos) (simp add: K_softmax_def)
    qed
    show "(\<Sum>a\<leftarrow>[0..<n]. \<Sum>b\<leftarrow>[0..<n]. flat ! (a * n + b)) = 1"
    proof -
      have "(\<Sum>a\<leftarrow>[0..<n]. \<Sum>b\<leftarrow>[0..<n]. flat ! (a * n + b)) = (\<Sum>i\<leftarrow>[0..<n * n]. flat ! i)"
        by (rule sum_list_rows)
      also have "\<dots> = sum_list flat" using sum_list_nth [of flat] lf by simp
      also have "\<dots> = 1" unfolding flat_def by (rule sum_list_softmax [OF ne])
      finally show ?thesis .
    qed
  qed
qed

lemma get_kernel_dims:
  assumes n: "filter_size s = n" and pos: "0 < n"
  shows "length (K_tile_channels C (get_kernel s)) = n"
    and "dim1 (K_tile_channels C (get_kernel s)) = n"
    and "dim2 (K_tile_channels C (get_kernel s)) = C"
proof -
  obtain m where m: "n = Suc m" using pos by (cases n) auto
  have u: "[0..<Suc m] = 0 # [1..<Suc m]" by (simp add: upt_rec)
  show "length (K_tile_channels C (get_kernel s)) = n"
    by (simp add: K_tile_channels_def get_kernel_def Let_def n)
  show "dim1 (K_tile_channels C (get_kernel s)) = n"
    by (simp add: K_tile_channels_def get_kernel_def Let_def n m dim1_def tab_def u del: upt_Suc)
  show "dim2 (K_tile_channels C (get_kernel s)) = C"
    by (simp add: K_tile_channels_def get_kernel_def Let_def n m dim2_def dim1_def tab_def u
        del: upt_Suc)
qed

lemma tiled_kernel_nth:
  assumes "k ! a ! b = [[v]]" "a < length k" "b < length (k ! a)" "c < C"
  shows "K_tile_channels C k ! a ! b ! c ! 0 = v"
  using assms by (simp add: K_tile_channels_def)

section \<open>Shapes of the similarity maps\<close>

lemma shape2_K_mean_hw:
  assumes "shape4 N H W C t" "0 < H" "0 < W"
  shows "shape2 N C (K_mean_hw t)"
proof -
  have "length (tab (dim2 im) f) = C" if "shape3 H W C im" for im and f :: "nat \<Rightarrow> real"
    using dims_shape3 [OF that assms(2,3)] by simp
  then show ?thesis using assms(1)
    by (auto simp: shape2_def shape4_def K_mean_hw_def list_all_iff)
qed

lemma nth_K_mean_hw:
  assumes t: "shape4 N H W C t" and pos: "0 < H" "0 < W" and n: "n < N" and c: "c < C"
  shows "K_mean_hw t ! n ! c
         = (\<Sum>i\<leftarrow>[0..<H]. \<Sum>j\<leftarrow>[0..<W]. t ! n ! i ! j ! c) / real (H * W)"
proof -
  have s3: "shape3 H W C (t ! n)" using t n by (rule shape4_nth)
  show ?thesis
    using dims_shape3 [OF s3 pos] n c shape4_length [OF t] by (simp add: K_mean_hw_def)
qed


lemma sum_list_concat: "sum_list (concat xss) = (\<Sum>xs\<leftarrow>xss. sum_list xs)"
  by (induction xss) simp_all



section \<open>The filter size of the multiscale loss\<close>

lemma get_smallest_size_nat:
  "get_smallest_size sz (int k) = ((\<lambda>x. x div 2) ^^ k) sz"
proof (induction k arbitrary: sz)
  case 0
  show ?case by (simp add: get_smallest_size.simps)
next
  case (Suc k)
  have "get_smallest_size sz (int (Suc k)) = get_smallest_size (sz div 2) (int k)"
    by (subst get_smallest_size.simps) simp
  also have "\<dots> = ((\<lambda>x. x div 2) ^^ k) (sz div 2)"
    by (rule Suc.IH)
  also have "\<dots> = ((\<lambda>x. x div 2) ^^ Suc k) sz"
    by (simp only: funpow_Suc_right o_apply)
  finally show ?case .
qed

lemma get_smallest_size_recursions:
  "get_smallest_size sz (int n - 1) = ((\<lambda>x. x div 2) ^^ (n - 1)) sz"
proof (cases n)
  case 0
  then show ?thesis by (simp add: get_smallest_size.simps)
next
  case (Suc k)
  then show ?thesis using get_smallest_size_nat [of sz k] by simp
qed




section \<open>Errors of the loss functions\<close>



section \<open>The wrapper\<close>

lemma snd_wrapper_loop_Cons:
  "snd (wrapper_loop y_true y_pred ((func, weight, mc) # rest) loss)
     = (case snd (wrapper_step y_true y_pred func weight mc loss) of
          Inl e \<Rightarrow> Inl e
        | Inr loss1 \<Rightarrow> snd (wrapper_loop y_true y_pred rest loss1))"
  by (simp split: prod.splits sum.splits)

lemma wrapper_loop_append:
  "snd (wrapper_loop y_true y_pred pre loss) = Inr v \<Longrightarrow>
   snd (wrapper_loop y_true y_pred (pre @ rest) loss) = snd (wrapper_loop y_true y_pred rest v)"
proof (induction pre arbitrary: loss)
  case Nil
  then show ?case by simp
next
  case (Cons r pre)
  obtain func weight mc where r: "r = (func, weight, mc)" by (cases r) auto
  show ?case
  proof (cases "snd (wrapper_step y_true y_pred func weight mc loss)")
    case (Inl e)
    with Cons.prems show ?thesis by (simp add: r snd_wrapper_loop_Cons del: wrapper_loop.simps(2))
  next
    case (Inr loss1)
    with Cons.prems have "snd (wrapper_loop y_true y_pred pre loss1) = Inr v"
      by (simp add: r snd_wrapper_loop_Cons del: wrapper_loop.simps(2))
    from Cons.IH [OF this] Inr show ?thesis
      by (simp add: r snd_wrapper_loop_Cons del: wrapper_loop.simps(2))
  qed
qed

lemma wrapper_loop_GMSD:
  "apply_mask y_true y_pred mc 1 = Inr m \<Longrightarrow>
   snd (wrapper_loop y_true y_pred ((GMSD, weight, mc) # post) v)
     = Inl (FaceswapError GMSD_message)"
  by (cases m) (simp add: snd_wrapper_loop_Cons wrapper_step_def loss_inputs_def
      GMSDLoss_call_def del: wrapper_loop.simps(2))

text \<open>
  C9. The GMSD loss raises its FaceswapError for every pair of inputs, before anything is
  computed. When the loop of the wrapper reaches a GMSD registration (the registrations
  before it have returned, and the mask of its own registration has been applied), the
  whole call of the wrapper ends with that error: no sum is returned.
\<close>

theorem GMSD_unavailable:
  assumes "zip (loss_functions w) (zip (loss_weights w) (mask_channels w))
             = pre @ (GMSD, weight, mc) # post"
    and "snd (wrapper_loop y_true y_pred pre (PyFloat 0)) = Inr v"
    and "apply_mask y_true y_pred mc 1 = Inr m"
  shows "GMSDLoss_call y_true y_pred = Inl (FaceswapError GMSD_message)
       \<and> snd (LossWrapper_call w y_true y_pred) = Inl (FaceswapError GMSD_message)"
proof -
  have "snd (LossWrapper_call w y_true y_pred)
        = snd (wrapper_loop y_true y_pred (pre @ (GMSD, weight, mc) # post) (PyFloat 0))"
    by (simp add: LossWrapper_call_def Let_def assms(1) split: prod.splits)
  also have "\<dots> = snd (wrapper_loop y_true y_pred ((GMSD, weight, mc) # post) v)"
    by (rule wrapper_loop_append [OF assms(2)])
  also have "\<dots> = Inl (FaceswapError GMSD_message)"
    by (rule wrapper_loop_GMSD [OF assms(3)])
  finally show ?thesis by (simp add: GMSDLoss_call_def)
qed

lemma LInf_example:
  "snd (wrapper_loop [[[[0, 0, 0]]]] [[[[1, 1, 1]]]] [(LInf, 1, - 1)] (PyFloat 0)) = Inr (Rank1 [1])"
  by (simp add: wrapper_step_def loss_inputs_def apply_mask_def slice_c_def tmap3_def tmap2_def py_slice_def
      slice_index_def LInfNorm_call_def tzip4_def tzip3_def tzip2_def tzip1_def tmap4_def
      K_max_hw_keepdims_def dim2_def dim1_def tab_def K_mean_last_def mean_list_def)

theorem GMSD_unavailable_witness:
  "zip (loss_functions (add_loss (add_loss LossWrapper_init LInf 1 (- 1)) GMSD 1 (- 1)))
       (zip (loss_weights (add_loss (add_loss LossWrapper_init LInf 1 (- 1)) GMSD 1 (- 1)))
            (mask_channels (add_loss (add_loss LossWrapper_init LInf 1 (- 1)) GMSD 1 (- 1))))
     = [(LInf, 1, - 1)] @ (GMSD, 1, - 1) # []
   \<and> snd (wrapper_loop [[[[0, 0, 0]]]] [[[[1, 1, 1]]]] [(LInf, 1, - 1)] (PyFloat 0)) = Inr (Rank1 [1])
   \<and> apply_mask [[[[0, 0, 0]]]] [[[[1, 1, 1]]]] (- 1) 1 = Inr ([[[[0, 0, 0]]]], [[[[1, 1, 1]]]])
   \<and> GMSDLoss_call [[[[0, 0, 0]]]] [[[[1, 1, 1]]]] = Inl (FaceswapError GMSD_message)
   \<and> snd (LossWrapper_call (add_loss (add_loss LossWrapper_init LInf 1 (- 1)) GMSD 1 (- 1))
            [[[[0, 0, 0]]]] [[[[1, 1, 1]]]]) = Inl (FaceswapError GMSD_message)"
proof -
  have h1: "zip (loss_functions (add_loss (add_loss LossWrapper_init LInf 1 (- 1)) GMSD 1 (- 1)))
       (zip (loss_weights (add_loss (add_loss LossWrapper_init LInf 1 (- 1)) GMSD 1 (- 1)))
            (mask_channels (add_loss (add_loss LossWrapper_init LInf 1 (- 1)) GMSD 1 (- 1))))
     = [(LInf, 1, - 1)] @ (GMSD, 1, - 1) # []"
    by (simp add: add_loss_def LossWrapper_init_def)
  have h2: "snd (wrapper_loop [[[[0, 0, 0]]]] [[[[1, 1, 1]]]] [(LInf, 1, - 1)] (PyFloat 0))
              = Inr (Rank1 [1])"
    by (rule LInf_example)
  have h3: "apply_mask [[[[0, 0, 0]]]] [[[[1, 1, 1]]]] (- 1) 1
              = Inr ([[[[0, 0, 0]]]], [[[[1, 1, 1]]]])"
    by (simp add: apply_mask_def slice_c_def tmap3_def tmap2_def py_slice_def slice_index_def)
  from GMSD_unavailable [OF h1 h2 h3] h1 h2 h3 show ?thesis by blast
qed

text \<open>
  C10. A wrapper that has no registration returns the Python number 0.0, not an array,
  whatever the two inputs are, and is left as it was.
\<close>

theorem empty_wrapper:
  "LossWrapper_call LossWrapper_init y_true y_pred = (LossWrapper_init, Inr (PyFloat 0))"
  by (simp add: LossWrapper_call_def LossWrapper_init_def)

section \<open>The masking of the wrapper\<close>






















section \<open>The value of the generalized loss\<close>

lemma K_pow_two: "K_pow x 2 = x\<^sup>2"
  by (simp add: K_pow_def)

lemma K_pow_pos: "0 < x \<Longrightarrow> K_pow x p = x powr p"
  by (simp add: K_pow_def)

lemma GeneralizedLoss_call_elementwise:
  assumes "alpha g \<noteq> 0"
  shows "GeneralizedLoss_call g y_true y_pred =
     Inr (tmap3 (\<lambda>x. x * beta g)
       (tmap3 mean_list
          (tzip4 (\<lambda>p t. (\<bar>2 - alpha g\<bar> / alpha g)
                    * (K_pow (K_pow ((p - t) / beta g) 2 / \<bar>2 - alpha g\<bar> + 1) (alpha g / 2) - 1))
             y_pred y_true)))"
  using assms
  by (simp add: GeneralizedLoss_call_def Let_def K_mean_last_def tmap4_tmap4 tmap4_tzip4)

lemma robust_term_K_pow:
  assumes "a \<noteq> 2"
  shows "(\<bar>2 - a\<bar> / a) * (K_pow (K_pow (d / b) 2 / \<bar>2 - a\<bar> + 1) (a / 2) - 1) = robust_term a b d"
proof -
  have "0 \<le> (d / b)\<^sup>2 / \<bar>2 - a\<bar>" by simp
  then have "0 < (d / b)\<^sup>2 / \<bar>2 - a\<bar> + 1" by linarith
  then show ?thesis by (simp add: robust_term_def K_pow_two K_pow_pos)
qed

lemma sum_list_tzip1:
  assumes "length xs = C" "length ys = C"
  shows "sum_list (tzip1 f xs ys) = (\<Sum>c\<leftarrow>[0..<C]. f (xs ! c) (ys ! c))"
proof -
  have "sum_list (tzip1 f xs ys) = (\<Sum>c\<leftarrow>[0..<C]. tzip1 f xs ys ! c)"
    using sum_list_nth [of "tzip1 f xs ys"] assms by simp
  also have "\<dots> = (\<Sum>c\<leftarrow>[0..<C]. f (xs ! c) (ys ! c))"
    by (rule arg_cong [where f = sum_list], rule map_cong) (simp_all add: assms)
  finally show ?thesis .
qed

text \<open>
  C3. For two arrays of one shape, \<^verbatim>\<open>alpha\<close> neither 0 nor 2 and \<^verbatim>\<open>beta\<close> not 0, the
  generalized loss returns, and what it returns is the formula of the spec: with \<open>d\<close> the
  difference of prediction and reference at a position, the term
  \<open>(\<bar>2 - alpha\<bar> / alpha) * (((d / beta)\<^sup>2 / \<bar>2 - alpha\<bar> + 1) powr (alpha / 2) - 1)\<close>
  averaged over the channels of every pixel and then multiplied by \<^verbatim>\<open>beta\<close>.
\<close>

theorem GeneralizedLoss_value:
  assumes t: "shape4 N H W C y_true" and p: "shape4 N H W C y_pred"
    and pos: "0 < N" "0 < H" "0 < W" "0 < C"
    and par: "alpha g \<noteq> 0" "alpha g \<noteq> 2" "beta g \<noteq> 0"
  shows "GeneralizedLoss_call g y_true y_pred = Inr (GeneralizedLoss_spec g y_true y_pred)"
proof -
  let ?F = "\<lambda>p t. (\<bar>2 - alpha g\<bar> / alpha g)
              * (K_pow (K_pow ((p - t) / beta g) 2 / \<bar>2 - alpha g\<bar> + 1) (alpha g / 2) - 1)"
  let ?v = "tmap3 (\<lambda>x. x * beta g) (tmap3 mean_list (tzip4 ?F y_pred y_true))"
  have c: "GeneralizedLoss_call g y_true y_pred = Inr ?v"
    by (rule GeneralizedLoss_call_elementwise [OF par(1)])
  have "?v = GeneralizedLoss_spec g y_true y_pred"
  proof (rule t3_eqI [where N = N and H = H and W = W])
    note lt = shape4_lengths [OF t]
    note lp = shape4_lengths [OF p]
    note d = dims_shape4 [OF t pos(1-3)]
    show "shape3 N H W ?v"
      using lt lp
      by (intro shape3I) (simp_all add: tmap3_def tmap2_def tzip4_def tzip3_def tzip2_def)
    show "shape3 N H W (GeneralizedLoss_spec g y_true y_pred)"
      unfolding GeneralizedLoss_spec_def d by (rule shape3_tab)
    fix n i j assume n: "n < N" and i: "i < H" and j: "j < W"
    have "?v ! n ! i ! j
          = mean_list (tzip1 ?F (y_pred ! n ! i ! j) (y_true ! n ! i ! j)) * beta g"
      using lt lp n i j
      by (simp add: tmap3_def tmap2_def tzip4_def tzip3_def tzip2_def)
    also have "\<dots> = (\<Sum>c\<leftarrow>[0..<C]. ?F (y_pred ! n ! i ! j ! c) (y_true ! n ! i ! j ! c))
                      / real C * beta g"
      using lt(4) [OF n i j] lp(4) [OF n i j] by (simp add: mean_list_def sum_list_tzip1)
    also have "\<dots> = (\<Sum>c\<leftarrow>[0..<C]. robust_term (alpha g) (beta g)
                                 (y_pred ! n ! i ! j ! c - y_true ! n ! i ! j ! c))
                      / real C * beta g"
      by (simp only: robust_term_K_pow [OF par(2)])
    also have "\<dots> = GeneralizedLoss_spec g y_true y_pred ! n ! i ! j"
      using n i j by (simp add: GeneralizedLoss_spec_def d)
    finally show "?v ! n ! i ! j = GeneralizedLoss_spec g y_true y_pred ! n ! i ! j" .
  qed
  with c show ?thesis by simp
qed

theorem GeneralizedLoss_value_witness:
  "shape4 1 1 1 1 [[[[0 :: real]]]] \<and> shape4 1 1 1 1 [[[[1 :: real]]]] \<and> (0::nat) < 1
   \<and> alpha \<lparr>alpha = 4, beta = 1 / 2\<rparr> \<noteq> 0 \<and> alpha \<lparr>alpha = 4, beta = 1 / 2\<rparr> \<noteq> 2
   \<and> beta \<lparr>alpha = 4, beta = 1 / 2\<rparr> \<noteq> 0
   \<and> GeneralizedLoss_call \<lparr>alpha = 4, beta = 1 / 2\<rparr> [[[[0]]]] [[[[1]]]] = Inr [[[2]]]"
proof -
  have t: "shape4 1 1 1 1 [[[[0 :: real]]]]" and p: "shape4 1 1 1 1 [[[[1 :: real]]]]"
    by (simp_all add: shape4_def shape3_def shape2_def)
  have s: "GeneralizedLoss_spec \<lparr>alpha = 4, beta = 1 / 2\<rparr> [[[[0]]]] [[[[1]]]] = [[[2]]]"
    by (simp add: GeneralizedLoss_spec_def robust_term_def dim1_def dim2_def dim3_def tab_def)
  from GeneralizedLoss_value [OF t p, of "\<lparr>alpha = 4, beta = 1 / 2\<rparr>"] s t p
  show ?thesis by simp
qed

section \<open>The mixed difference of the gradient loss\<close>

lemma diff_xy_shape_aux:
  assumes t: "shape4 N H W C img" and h: "2 \<le> H" and w: "2 \<le> W"
  shows "shape4 N (1 + ((H - 2) + 1)) (1 + ((W - 2) + 1)) C
    (K_concatenate2
      [K_concatenate1
         [tzip4 (+) (slice_hw (Some 0) (Some 1) (Some 1) (Some 2) img)
                    (slice_hw (Some 1) (Some 2) (Some 0) (Some 1) img),
          tzip4 (+) (slice_hw None (Some (- 2)) (Some 1) (Some 2) img)
                    (slice_hw (Some 2) None (Some 0) (Some 1) img),
          tzip4 (+) (slice_hw (Some (- 2)) (Some (- 1)) (Some 1) (Some 2) img)
                    (slice_hw (Some (- 1)) None (Some 0) (Some 1) img)],
       K_concatenate1
         [tzip4 (+) (slice_hw (Some 0) (Some 1) (Some 2) None img)
                    (slice_hw (Some 1) (Some 2) None (Some (- 2)) img),
          tzip4 (+) (slice_hw None (Some (- 2)) (Some 2) None img)
                    (slice_hw (Some 2) None None (Some (- 2)) img),
          tzip4 (+) (slice_hw (Some (- 2)) (Some (- 1)) (Some 2) None img)
                    (slice_hw (Some (- 1)) None None (Some (- 2)) img)],
       K_concatenate1
         [tzip4 (+) (slice_hw (Some 0) (Some 1) (Some (- 1)) None img)
                    (slice_hw (Some 1) (Some 2) (Some (- 2)) (Some (- 1)) img),
          tzip4 (+) (slice_hw None (Some (- 2)) (Some (- 1)) None img)
                    (slice_hw (Some 2) None (Some (- 2)) (Some (- 1)) img),
          tzip4 (+) (slice_hw (Some (- 2)) (Some (- 1)) (Some (- 1)) None img)
                    (slice_hw (Some (- 1)) None (Some (- 2)) (Some (- 1)) img)]])"
  by (intro shape4_concatenate2 shape4_concatenate1 shape4_tzip4 shape4_slice_hw_len [OF t]
      slice_len_cases [OF h] slice_len_cases [OF w])

lemma diff_xy_zero_aux:
  assumes "shape4 N H W C img" and "2 \<le> H" and "2 \<le> W"
  shows "diff_xy img = zeros4 N H W C"
proof -
  have "1 + ((H - 2) + 1) = H" "1 + ((W - 2) + 1) = W" using assms by simp_all
  with diff_xy_shape_aux [OF assms] show ?thesis
    by (simp add: diff_xy_def Let_def tzip4_same tmap4_tmap4 tmap4_const zeros4_def)
qed

text \<open>
  C4. For every image batch of height and width at least 2, \<^verbatim>\<open>_diff_xy\<close> returns the array
  of zeros of the shape of its input: \<^verbatim>\<open>xy_out1\<close> and \<^verbatim>\<open>xy_out2\<close> are built from the same
  three arrays, and their difference is taken.
\<close>

theorem diff_xy_zero:
  assumes "shape4 N H W C img" and "2 \<le> H" and "2 \<le> W"
  shows "diff_xy img = zeros4 N H W C"
  using assms by (rule diff_xy_zero_aux)

theorem diff_xy_zero_witness:
  "shape4 1 2 2 1 [[[[1 :: real], [2]], [[3], [4]]]] \<and> (2::nat) \<le> 2
   \<and> diff_xy [[[[1], [2]], [[3], [4]]]] = [[[[0], [0]], [[0], [0]]]]"
proof -
  have t: "shape4 1 2 2 1 [[[[1 :: real], [2]], [[3], [4]]]]"
    by (simp add: shape4_def shape3_def shape2_def)
  have z: "zeros4 1 2 2 1 = [[[[0], [0]], [[0], [0]]]]"
    by (simp add: zeros4_def numeral_2_eq_2)
  from diff_xy_zero [OF t] z t show ?thesis by simp
qed

section \<open>The DSSIM loss\<close>

lemma get_kernel_size1: "filter_size s = 1 \<Longrightarrow> get_kernel s = [[[[1]]]]"
  by (simp add: get_kernel_def Let_def tab_def K_softmax_def K_square_def)

lemma init1: "DSSIMObjective_init (1 / 100) (3 / 100) 1 (3 / 2) 1
   = \<lparr>filter_size = 1, filter_sigma = 3 / 2, kernel = [[[[1]]]], c1 = 1 / 10000, c2 = 9 / 10000\<rparr>"
  by (simp add: DSSIMObjective_init_def Let_def get_kernel_size1 power2_eq_square)







section \<open>The multiscale loss at a single scale\<close>

lemma power_factors_shrink_filter [simp]:
  "power_factors (shrink_filter s y_pred) = power_factors s"
  by (simp add: shrink_filter_def Let_def)




lemma softmax4: "K_softmax [e, e, e, e] = [1 / 4, 1 / 4, 1 / 4, 1 / 4]"
proof -
  have "exp e / (exp e + (exp e + (exp e + exp e))) = 1 / 4"
    by (simp add: field_simps)
  then show ?thesis by (simp add: K_softmax_def)
qed

lemma upt_2: "[0..<2] = [0, 1]"
  by (simp add: numeral_2_eq_2)

lemma get_kernel_size2:
  assumes "filter_size s = 2"
  shows "get_kernel s = [[[[1 / 4]], [[1 / 4]]], [[[1 / 4]], [[1 / 4]]]]"
proof -
  define e where "e = (1 / 4 :: real) * (- 0.5 / K_square (filter_sigma s))"
  have row: "map (\<lambda>c. K_square c * (- 0.5 / K_square (filter_sigma s)))
               (map (\<lambda>i. real i - (real 2 - 1) / 2) [0..<2]) = [e, e]"
    by (simp add: upt_2 e_def K_square_def)
  show ?thesis
    unfolding get_kernel_def Let_def assms row
    by (simp add: softmax4 tab_def upt_2)
qed

lemma init2: "MSSIMLoss_init (1 / 100) (3 / 100) 2 (3 / 2) 1 [1]
   = \<lparr>filter_size = 2, filter_sigma = 3 / 2,
      kernel = [[[[1 / 4]], [[1 / 4]]], [[[1 / 4]], [[1 / 4]]]],
      c1 = 1 / 10000, c2 = 9 / 10000, power_factors = [1]\<rparr>"
  by (simp add: MSSIMLoss_init_def DSSIMObjective_init_def Let_def get_kernel_size2
      power2_eq_square DSSIMObjective.defs MSSIMLoss.defs)







section \<open>Identical inputs: the pixel losses\<close>

lemma GeneralizedLoss_self:
  assumes "shape4 N H W C a" and "alpha g \<noteq> 0"
  shows "GeneralizedLoss_call g a a = Inr (zeros3 N H W)"
proof -
  have F: "(\<bar>2 - alpha g\<bar> / alpha g)
             * (K_pow (K_pow ((x - x) / beta g) 2 / \<bar>2 - alpha g\<bar> + 1) (alpha g / 2) - 1) = 0"
    for x :: real
    by (simp add: K_pow_two K_pow_pos)
  have "GeneralizedLoss_call g a a
        = Inr (tmap3 (\<lambda>x. x * beta g) (tmap3 mean_list (tmap4 (\<lambda>x. 0) a)))"
    unfolding GeneralizedLoss_call_elementwise [OF assms(2)] tzip4_same F ..
  also have "\<dots> = Inr (zeros3 N H W)"
    by (simp add: tmap4_const [OF assms(1)] tmap3_def tmap2_def zeros3_def mean_list_def
        sum_list_replicate)
  finally show ?thesis .
qed

lemma max_list_zeros: "list_all (\<lambda>x. x = 0) xs \<Longrightarrow> max_list xs = 0"
proof (cases xs)
  case Nil
  then show ?thesis by simp
next
  case (Cons x ys)
  assume a: "list_all (\<lambda>x. x = 0) xs"
  have "fold max zs 0 = (0::real)" if "list_all (\<lambda>x. x = 0) zs" for zs
    using that by (induction zs) simp_all
  with a Cons show ?thesis by simp
qed

lemma LInfNorm_self:
  assumes y: "shape4 N H W C y" and pos: "0 < H" "0 < W" "0 < C"
  shows "LInfNorm_call y y = zeros3 N 1 1"
proof -
  have "tmap4 abs (tzip4 (-) y y) = tmap4 (\<lambda>x. 0) y"
    unfolding tzip4_same tmap4_tmap4 by simp
  then have d: "tmap4 abs (tzip4 (-) y y) = zeros4 N H W C"
    by (simp add: tmap4_const [OF y] zeros4_def)
  have d2: "dim2 (replicate H (replicate W (replicate C (0::real)))) = C"
    using pos by (cases H; cases W) (simp_all add: dim2_def dim1_def)
  have m: "max_list (map (\<lambda>px. px ! c) (concat (replicate H (replicate W (replicate C (0::real)))))) = 0"
    if "c < C" for c
    using that by (intro max_list_zeros) (auto simp: list_all_iff)
  have t: "tab C (\<lambda>c. max_list (map (\<lambda>px. px ! c)
                (concat (replicate H (replicate W (replicate C (0::real))))))) = replicate C 0"
    unfolding tab_def using m by (intro replicate_eqI) auto
  show ?thesis
    unfolding LInfNorm_call_def Let_def d
    using pos
    by (simp add: zeros4_def K_max_hw_keepdims_def d2 t K_mean_last_def tmap3_def tmap2_def
        mean_list_def zeros3_def sum_list_replicate)
qed

lemma diff_x_shape:
  assumes t: "shape4 N H W C img" and w: "2 \<le> W"
  shows "shape4 N H W C (diff_x img)"
proof -
  have "shape4 N H (1 + ((W - 2) + 1)) C (diff_x img)"
    unfolding diff_x_def Let_def
    by (intro shape4_tmap4 shape4_concatenate2 shape4_tzip4 shape4_slice_w_len [OF t]
        slice_len_cases [OF w])
  moreover have "1 + ((W - 2) + 1) = W" using w by simp
  ultimately show ?thesis by simp
qed

lemma diff_y_shape:
  assumes t: "shape4 N H W C img" and h: "2 \<le> H"
  shows "shape4 N H W C (diff_y img)"
proof -
  have "shape4 N (1 + ((H - 2) + 1)) W C (diff_y img)"
    unfolding diff_y_def Let_def
    by (intro shape4_tmap4 shape4_concatenate1 shape4_tzip4 shape4_slice_h_len [OF t]
        slice_len_cases [OF h])
  moreover have "1 + ((H - 2) + 1) = H" using h by simp
  ultimately show ?thesis by simp
qed

lemma diff_xx_shape:
  assumes t: "shape4 N H W C img" and w: "2 \<le> W"
  shows "shape4 N H W C (diff_xx img)"
proof -
  have e: "1 + ((W - 2) + 1) = W" using w by simp
  have "shape4 N H (1 + ((W - 2) + 1)) C
          (K_concatenate2
            [tzip4 (+) (slice_w (Some 1) (Some 2) img) (slice_w (Some 0) (Some 1) img),
             tzip4 (+) (slice_w (Some 2) None img) (slice_w None (Some (- 2)) img),
             tzip4 (+) (slice_w (Some (- 1)) None img) (slice_w (Some (- 2)) (Some (- 1)) img)])"
    by (intro shape4_concatenate2 shape4_tzip4 shape4_slice_w_len [OF t] slice_len_cases [OF w])
  then show ?thesis
    unfolding diff_xx_def Let_def e
    by (intro shape4_tzip4 shape4_tmap4 t)
qed

lemma diff_yy_shape:
  assumes t: "shape4 N H W C img" and h: "2 \<le> H"
  shows "shape4 N H W C (diff_yy img)"
proof -
  have e: "1 + ((H - 2) + 1) = H" using h by simp
  have "shape4 N (1 + ((H - 2) + 1)) W C
          (K_concatenate1
            [tzip4 (+) (slice_h (Some 1) (Some 2) img) (slice_h (Some 0) (Some 1) img),
             tzip4 (+) (slice_h (Some 2) None img) (slice_h None (Some (- 2)) img),
             tzip4 (+) (slice_h (Some (- 1)) None img) (slice_h (Some (- 2)) (Some (- 1)) img)])"
    by (intro shape4_concatenate1 shape4_tzip4 shape4_slice_h_len [OF t] slice_len_cases [OF h])
  then show ?thesis
    unfolding diff_yy_def Let_def e
    by (intro shape4_tzip4 shape4_tmap4 t)
qed

lemma shape4_zeros4: "shape4 N H W C (zeros4 N H W C)"
  by (simp add: zeros4_def shape4_def shape3_def shape2_def list_all_iff)

lemma GradientLoss_self:
  assumes t: "shape4 N H W C y" and h: "2 \<le> H" and w: "2 \<le> W"
    and a: "alpha (generalized_loss g) \<noteq> 0"
  shows "GradientLoss_call g y y = Inr (zeros3 N H W)"
proof -
  note gl = GeneralizedLoss_self [of N H W C _ "generalized_loss g", OF _ a]
  have x: "GeneralizedLoss_call (generalized_loss g) (diff_x y) (diff_x y) = Inr (zeros3 N H W)"
    by (rule gl [OF diff_x_shape [OF t w]])
  have yy: "GeneralizedLoss_call (generalized_loss g) (diff_y y) (diff_y y) = Inr (zeros3 N H W)"
    by (rule gl [OF diff_y_shape [OF t h]])
  have xx: "GeneralizedLoss_call (generalized_loss g) (diff_xx y) (diff_xx y) = Inr (zeros3 N H W)"
    by (rule gl [OF diff_xx_shape [OF t w]])
  have y2: "GeneralizedLoss_call (generalized_loss g) (diff_yy y) (diff_yy y) = Inr (zeros3 N H W)"
    by (rule gl [OF diff_yy_shape [OF t h]])
  have xy: "GeneralizedLoss_call (generalized_loss g) (diff_xy y) (diff_xy y) = Inr (zeros3 N H W)"
    unfolding diff_xy_zero_aux [OF t h w] by (rule gl [OF shape4_zeros4])
  show ?thesis
    unfolding GradientLoss_call_def Let_def x yy xx y2 xy
    by (simp add: zeros3_def tzip3_def tzip2_def tzip1_def tmap3_def tmap2_def)
qed

section \<open>Identical inputs: the structural similarity\<close>

lemma t2_eqI:
  assumes a: "shape2 N C a" and b: "shape2 N C b"
    and e: "\<And>n c. n < N \<Longrightarrow> c < C \<Longrightarrow> a ! n ! c = b ! n ! c"
  shows "a = b"
proof (rule nth_equalityI)
  show "length a = length b" using a b by (simp add: shape2_iff)
  fix n assume "n < length a"
  then have n: "n < N" using a by (simp add: shape2_iff)
  show "a ! n = b ! n"
  proof (rule nth_equalityI)
    show "length (a ! n) = length (b ! n)" using a b n by (simp add: shape2_iff)
    fix c assume "c < length (a ! n)"
    then have "c < C" using a n by (simp add: shape2_iff)
    then show "a ! n ! c = b ! n ! c" using e n by simp
  qed
qed

lemma sum_list_const_window:
  "(\<Sum>i\<leftarrow>[0..<H]. \<Sum>j\<leftarrow>[0..<W]. (v::real)) = real (H * W) * v"
  by (simp add: sum_list_triv algebra_simps)

lemma K_mean_hw_const:
  assumes t: "shape4 N H W C t" and pos: "0 < H" "0 < W"
    and v: "\<And>n i j c. n < N \<Longrightarrow> i < H \<Longrightarrow> j < W \<Longrightarrow> c < C \<Longrightarrow> t ! n ! i ! j ! c = v"
  shows "K_mean_hw t = replicate N (replicate C v)"
proof (rule t2_eqI [where N = N and C = C])
  show "shape2 N C (K_mean_hw t)" by (rule shape2_K_mean_hw [OF t pos])
  show "shape2 N C (replicate N (replicate C v))" by (simp add: shape2_def list_all_iff)
  fix n c assume n: "n < N" and c: "c < C"
  have "(\<Sum>i\<leftarrow>[0..<H]. \<Sum>j\<leftarrow>[0..<W]. t ! n ! i ! j ! c) = (\<Sum>i\<leftarrow>[0..<H]. \<Sum>j\<leftarrow>[0..<W]. v)"
    by (intro arg_cong [where f = sum_list] map_cong refl) (simp add: v n c)
  then have "K_mean_hw t ! n ! c = v"
    using nth_K_mean_hw [OF t pos n c] pos by (simp add: sum_list_const_window)
  then show "K_mean_hw t ! n ! c = replicate N (replicate C v) ! n ! c" using n c by simp
qed

lemma conv_weights:
  assumes y: "shape4 N H W C y" and pos: "0 < H" "0 < W"
    and kd: "length k = kh" "dim1 k = kh" "dim2 k = C"
    and kw: "\<And>a b c. a < kh \<Longrightarrow> b < kh \<Longrightarrow> c < C \<Longrightarrow> k ! a ! b ! c ! 0 = w a b"
    and n: "n < N" and i: "i < H + 1 - kh" and j: "j < W + 1 - kh" and c: "c < C"
  shows "depthwise_conv2d y k ! n ! i ! j ! c
         = (\<Sum>a\<leftarrow>[0..<kh]. \<Sum>b\<leftarrow>[0..<kh]. y ! n ! (i + a) ! (j + b) ! c * w a b)"
  unfolding nth_conv [OF y pos kd n i j c]
  by (intro arg_cong [where f = sum_list] map_cong refl) (simp add: kw c)

lemma get_ssim_self:
  assumes y: "shape4 N H W C y" and pos: "0 < N" "0 < H" "0 < W"
    and k: "kernel s = get_kernel s" "filter_size s = k" "0 < k" "k \<le> H" "k \<le> W"
    and cs: "0 < c1 s" "0 < c2 s"
  shows "get_ssim s y y = (replicate N (replicate C 1), replicate N (replicate C 1))"
proof -
  define K where "K = K_tile_channels C (get_kernel s)"
  define M where "M = depthwise_conv2d y K"
  define Q where "Q = depthwise_conv2d (tzip4 (*) y y) K"
  define Q2 where "Q2 = depthwise_conv2d (tzip4 (+) (tmap4 K_square y) (tmap4 K_square y)) K"
  define num_lum where "num_lum = tmap4 (\<lambda>x. x * 2) (tzip4 (*) M M)"
  define den_lum where "den_lum = tzip4 (+) (tmap4 K_square M) (tmap4 K_square M)"
  define L where "L = tzip4 (/) (tmap4 (\<lambda>x. x + c1 s) num_lum) (tmap4 (\<lambda>x. x + c1 s) den_lum)"
  define num_con where "num_con = tmap4 (\<lambda>x. x * 2) Q"
  define Cn where "Cn = tzip4 (/) (tmap4 (\<lambda>x. x + c2 s) (tzip4 (-) num_con num_lum))
                                  (tmap4 (\<lambda>x. x + c2 s) (tzip4 (-) Q2 den_lum))"
  let ?H = "H + 1 - k" and ?W = "W + 1 - k"
  have hw: "0 < ?H" "0 < ?W" using k by simp_all
  have d: "dim3 y = C" using dims_shape4 [OF y pos] by simp
  have g: "get_ssim s y y = (K_mean_hw (tzip4 (*) L Cn), K_mean_hw Cn)"
    unfolding get_ssim_def Let_def d k(1) K_def M_def Q_def Q2_def num_lum_def den_lum_def
      L_def num_con_def Cn_def ..
  note kd = get_kernel_dims [OF k(2,3), of C, folded K_def]
  obtain w :: "nat \<Rightarrow> nat \<Rightarrow> real" where
    w1: "\<And>a b. a < k \<Longrightarrow> b < k \<Longrightarrow> get_kernel s ! a ! b = [[w a b]]"
    and w2: "\<And>a b. a < k \<Longrightarrow> b < k \<Longrightarrow> 0 < w a b"
    and w3: "(\<Sum>a\<leftarrow>[0..<k]. \<Sum>b\<leftarrow>[0..<k]. w a b) = 1"
    using get_kernel_weights [OF k(2,3)] by blast
  have lk: "length (get_kernel s) = k" "\<And>a. a < k \<Longrightarrow> length (get_kernel s ! a) = k"
    by (simp_all add: get_kernel_def Let_def k(2))
  have kw: "K ! a ! b ! c ! 0 = w a b" if "a < k" "b < k" "c < C" for a b c
    unfolding K_def using that lk by (intro tiled_kernel_nth [OF w1]) simp_all
  have sy2: "shape4 N H W C (tzip4 (*) y y)" by (intro shape4_tzip4 y)
  have sy3: "shape4 N H W C (tzip4 (+) (tmap4 K_square y) (tmap4 K_square y))"
    by (intro shape4_tzip4 shape4_tmap4 y)
  have sM: "shape4 N ?H ?W C M" unfolding M_def by (rule shape4_conv [OF y pos(2,3) kd])
  have sQ: "shape4 N ?H ?W C Q" unfolding Q_def by (rule shape4_conv [OF sy2 pos(2,3) kd])
  have sQ2: "shape4 N ?H ?W C Q2" unfolding Q2_def by (rule shape4_conv [OF sy3 pos(2,3) kd])
  have snl: "shape4 N ?H ?W C num_lum" unfolding num_lum_def by (intro shape4_tmap4 shape4_tzip4 sM)
  have sdl: "shape4 N ?H ?W C den_lum" unfolding den_lum_def by (intro shape4_tmap4 shape4_tzip4 sM)
  have snc: "shape4 N ?H ?W C num_con" unfolding num_con_def by (intro shape4_tmap4 sQ)
  have sL: "shape4 N ?H ?W C L" unfolding L_def by (intro shape4_tmap4 shape4_tzip4 snl sdl)
  have sC: "shape4 N ?H ?W C Cn"
    unfolding Cn_def by (intro shape4_tmap4 shape4_tzip4 snl sdl snc sQ2)
  have vals: "L ! n ! i ! j ! c = 1 \<and> Cn ! n ! i ! j ! c = 1"
    if r: "n < N" "i < ?H" "j < ?W" "c < C" for n i j c
  proof -
    define x where "x = (\<lambda>a b. y ! n ! (i + a) ! (j + b) ! c)"
    define m where "m = (\<Sum>a\<leftarrow>[0..<k]. \<Sum>b\<leftarrow>[0..<k]. x a b * w a b)"
    define q where "q = (\<Sum>a\<leftarrow>[0..<k]. \<Sum>b\<leftarrow>[0..<k]. (x a b)\<^sup>2 * w a b)"
    have inr: "i + a < H" "j + b < W" if "a < k" "b < k" for a b
      using that r by simp_all
    have Mv: "M ! n ! i ! j ! c = m"
      unfolding M_def m_def x_def
      by (rule conv_weights [OF y pos(2,3) kd kw r])
    have Qv: "Q ! n ! i ! j ! c = q"
    proof -
      have "Q ! n ! i ! j ! c
            = (\<Sum>a\<leftarrow>[0..<k]. \<Sum>b\<leftarrow>[0..<k]. tzip4 (*) y y ! n ! (i + a) ! (j + b) ! c * w a b)"
        unfolding Q_def by (rule conv_weights [OF sy2 pos(2,3) kd kw r])
      also have "\<dots> = q"
        unfolding q_def x_def
        by (intro arg_cong [where f = sum_list] map_cong refl)
           (simp add: nth_tzip4 [OF y y r(1) inr r(4)] power2_eq_square)
      finally show ?thesis .
    qed
    have Q2v: "Q2 ! n ! i ! j ! c = 2 * q"
    proof -
      have "Q2 ! n ! i ! j ! c
            = (\<Sum>a\<leftarrow>[0..<k]. \<Sum>b\<leftarrow>[0..<k].
                 tzip4 (+) (tmap4 K_square y) (tmap4 K_square y) ! n ! (i + a) ! (j + b) ! c * w a b)"
        unfolding Q2_def by (rule conv_weights [OF sy3 pos(2,3) kd kw r])
      also have "\<dots> = (\<Sum>a\<leftarrow>[0..<k]. \<Sum>b\<leftarrow>[0..<k]. 2 * ((x a b)\<^sup>2 * w a b))"
        unfolding x_def
        by (intro arg_cong [where f = sum_list] map_cong refl)
           (simp add: nth_tzip4 [OF shape4_tmap4 [OF y] shape4_tmap4 [OF y] r(1) inr r(4)]
              nth_tmap4 [OF y r(1) inr r(4)] K_square_def power2_eq_square)
      also have "\<dots> = 2 * q"
        unfolding q_def by (simp add: sum_list_const_mult)
      finally show ?thesis .
    qed
    have jensen: "m\<^sup>2 \<le> q"
      unfolding m_def q_def
      by (rule window_square_mean [OF _ w3]) (simp add: w2 less_imp_le)
    have nl: "num_lum ! n ! i ! j ! c = m * m * 2"
      unfolding num_lum_def
      by (simp add: nth_tmap4 [OF shape4_tzip4 [OF sM sM] r] nth_tzip4 [OF sM sM r] Mv)
    have dl: "den_lum ! n ! i ! j ! c = m * m + m * m"
      unfolding den_lum_def
      by (simp add: nth_tzip4 [OF shape4_tmap4 [OF sM] shape4_tmap4 [OF sM] r]
          nth_tmap4 [OF sM r] Mv K_square_def)
    have nc: "num_con ! n ! i ! j ! c = q * 2"
      unfolding num_con_def by (simp add: nth_tmap4 [OF sQ r] Qv)
    have "0 \<le> m * m" by simp
    then have lp: "0 < m * m * 2 + c1 s" using cs(1) by linarith
    have Lv: "L ! n ! i ! j ! c = 1"
      unfolding L_def using lp
      by (simp add: nth_tzip4 [OF shape4_tmap4 [OF snl] shape4_tmap4 [OF sdl] r]
          nth_tmap4 [OF snl r] nth_tmap4 [OF sdl r] nl dl)
    have "0 \<le> q - m * m" using jensen by (simp add: power2_eq_square)
    then have cp: "0 < q * 2 - m * m * 2 + c2 s" using cs(2) by linarith
    have Cv: "Cn ! n ! i ! j ! c = 1"
      unfolding Cn_def using cp
      by (simp add: nth_tzip4 [OF shape4_tmap4 [OF shape4_tzip4 [OF snc snl]]
                                   shape4_tmap4 [OF shape4_tzip4 [OF sQ2 sdl]] r]
          nth_tmap4 [OF shape4_tzip4 [OF snc snl] r] nth_tmap4 [OF shape4_tzip4 [OF sQ2 sdl] r]
          nth_tzip4 [OF snc snl r] nth_tzip4 [OF sQ2 sdl r] nl dl nc Q2v)
    from Lv Cv show ?thesis by simp
  qed
  have c: "K_mean_hw Cn = replicate N (replicate C 1)"
    by (rule K_mean_hw_const [OF sC hw]) (simp add: vals)
  have l: "K_mean_hw (tzip4 (*) L Cn) = replicate N (replicate C 1)"
    by (rule K_mean_hw_const [OF shape4_tzip4 [OF sL sC] hw])
       (simp add: nth_tzip4 [OF sL sC] vals)
  show ?thesis by (simp add: g c l)
qed

section \<open>Identical inputs: the scales of the multiscale loss\<close>

lemma reflect_pad_none [simp]: "reflect_pad 0 0 xs = xs"
  by (simp add: reflect_pad_def)

lemma map_reflect_pad_none [simp]: "map (reflect_pad 0 0) xs = xs"
  by (rule map_idI) simp

lemma length_reflect_pad_one:
  "2 \<le> length xs \<Longrightarrow> length (reflect_pad 0 (Suc 0) xs) = Suc (length xs)"
  by (cases xs rule: rev_cases) (auto simp: reflect_pad_def neq_Nil_conv)

lemma set_tl_subset: "set (tl xs) \<subseteq> set xs"
  by (cases xs) auto

lemma set_reflect_pad: "set (reflect_pad b a xs) \<subseteq> set xs"
proof -
  have "set (take b (tl xs)) \<subseteq> set xs"
    using set_take_subset [of b "tl xs"] set_tl_subset [of xs] by blast
  moreover have "set (take a (tl (rev xs))) \<subseteq> set xs"
    using set_take_subset [of a "tl (rev xs)"] set_tl_subset [of "rev xs"] by auto
  ultimately show ?thesis by (auto simp: reflect_pad_def)
qed

lemma list_all_reflect_pad: "list_all P xs \<Longrightarrow> list_all P (reflect_pad b a xs)"
  using set_reflect_pad [of b a xs] by (auto simp: list_all_iff)

lemma shape4_pad:
  assumes t: "shape4 N H W C img" and h: "2 \<le> H" and w: "2 \<le> W"
  shows "shape4 N (H + 1) (W + 1) C (pad img (0, 0) (0, 1) (0, 1) (0, 0))"
proof -
  have row: "shape2 (W + 1) C (reflect_pad 0 1 row)" if "shape2 W C row" for row :: "real list list"
    using that w by (simp add: shape2_def length_reflect_pad_one list_all_reflect_pad)
  have im: "shape3 (H + 1) (W + 1) C (reflect_pad 0 1 (map (reflect_pad 0 1) im))"
    if "shape3 H W C im" for im :: "real list list list"
  proof -
    have "shape3 H (W + 1) C (map (reflect_pad 0 1) im)"
      using that row by (auto simp: shape3_def list_all_iff)
    then show ?thesis
      using h by (simp add: shape3_def length_reflect_pad_one list_all_reflect_pad)
  qed
  have "pad img (0, 0) (0, 1) (0, 1) (0, 0)
        = map (\<lambda>im. reflect_pad 0 1 (map (reflect_pad 0 1) im)) img"
    by (simp add: pad_def)
  then show ?thesis using t im by (auto simp: shape4_def list_all_iff)
qed

lemma shape4_pool:
  assumes t: "shape4 N H W C img" and pos: "0 < H" "0 < W"
  shows "shape4 N (H div 2) (W div 2) C (K_pool2d img)"
proof -
  have "shape3 (H div 2) (W div 2) C (pool_image im)" if "shape3 H W C im" for im
    using dims_shape3 [OF that pos] unfolding pool_image_def by (simp add: shape3_tab_tab_tab)
  then show ?thesis using t by (simp add: shape4_def K_pool2d_def list_all_iff)
qed

lemma shrink_images_same:
  assumes t: "shape4 N H H C a" and n: "0 < N" and h: "2 \<le> H"
  obtains b where "shrink_images (a, a) = (b, b)" "shape4 N ((H + 1) div 2) ((H + 1) div 2) C b"
proof (cases "H mod 2 = 0")
  case True
  have d: "dim1 a = H" using dims_shape4 [OF t n] h by simp
  have e: "(H + 1) div 2 = H div 2" using True by presburger
  show ?thesis
  proof (rule that)
    show "shrink_images (a, a) = (K_pool2d a, K_pool2d a)"
      by (simp add: shrink_images_def Let_def d True)
    show "shape4 N ((H + 1) div 2) ((H + 1) div 2) C (K_pool2d a)"
      unfolding e using h by (intro shape4_pool [OF t]) simp_all
  qed
next
  case False
  have d: "dim1 a = H" using dims_shape4 [OF t n] h by simp
  let ?p = "pad a (0, 0) (0, 1) (0, 1) (0, 0)"
  show ?thesis
  proof (rule that)
    show "shrink_images (a, a) = (K_pool2d ?p, K_pool2d ?p)"
      by (simp add: shrink_images_def Let_def d False)
    show "shape4 N ((H + 1) div 2) ((H + 1) div 2) C (K_pool2d ?p)"
      by (intro shape4_pool [OF shape4_pad [OF t h h]]) simp_all
  qed
qed

lemma halve_le_half_up:
  "((\<lambda>x. x div 2) ^^ j) (H::nat) \<le> ((\<lambda>h. (h + 1) div 2) ^^ j) H"
proof (induction j)
  case 0
  show ?case by simp
next
  case (Suc j)
  then show ?case by (simp add: div_le_mono le_SucI)
qed

lemma halve_antimono:
  "j \<le> j' \<Longrightarrow> ((\<lambda>x. x div 2) ^^ j') (H::nat) \<le> ((\<lambda>x. x div 2) ^^ j) H"
proof (induction j' arbitrary: j)
  case 0
  then show ?case by simp
next
  case (Suc j')
  show ?case
  proof (cases "j = Suc j'")
    case True
    then show ?thesis by simp
  next
    case False
    with Suc.prems have "j \<le> j'" by simp
    from Suc.IH [OF this] have "((\<lambda>x. x div 2) ^^ j') H div 2 \<le> ((\<lambda>x. x div 2) ^^ j) H"
      using div_le_dividend le_trans by blast
    then show ?thesis by simp
  qed
qed

lemma relu_expand_ones:
  "tmap3 K_relu (K_expand_dims (replicate N (replicate C 1))) = replicate N (replicate C [1])"
  by (simp add: tmap3_def tmap2_def K_expand_dims_def K_relu_def)

lemma scale_step_self:
  assumes b: "shape4 N h h C b" and pos: "0 < N" "0 < h"
    and k: "kernel s = get_kernel s" "filter_size s = k" "0 < k" "k \<le> h"
    and cs: "0 < c1 s" "0 < c2 s"
  shows "get_ssim s b b = (replicate N (replicate C 1), replicate N (replicate C 1))"
  by (rule get_ssim_self [OF b pos(1) pos(2) pos(2) k k(4) cs])

lemma ms_loop_self:
  assumes y: "shape4 N H H C y" and pos: "0 < N"
    and k: "kernel s = get_kernel s" "filter_size s = k" "0 < k"
           "k \<le> ((\<lambda>x. x div 2) ^^ (n - 1)) H"
    and cs: "0 < c1 s" "0 < c2 s"
    and j: "j < n"
  shows "\<exists>b. fold (scale_step s n) [0..<Suc j] ((y, y), [], None)
              = ((b, b), replicate (min (Suc j) (n - 1)) (replicate N (replicate C [1])),
                 Some (replicate N (replicate C 1)))
            \<and> shape4 N (((\<lambda>h. (h + 1) div 2) ^^ j) H) (((\<lambda>h. (h + 1) div 2) ^^ j) H) C b"
  using j
proof (induction j)
  case 0
  have kH: "k \<le> H" using k(4) halve_antimono [of 0 "n - 1" H] by simp
  then have H: "0 < H" using k(3) by simp
  have g: "get_ssim s y y = (replicate N (replicate C 1), replicate N (replicate C 1))"
    by (rule scale_step_self [OF y pos H k(1-3) kH cs])
  have "fold (scale_step s n) [0..<Suc 0] ((y, y), [], None)
        = ((y, y), replicate (min (Suc 0) (n - 1)) (replicate N (replicate C [1])),
           Some (replicate N (replicate C 1)))"
    using 0 by (cases "n = 1") (auto simp: scale_step_def Let_def g relu_expand_ones min_def)
  with y show ?case by simp
next
  case (Suc j)
  then have jn: "j < n" by simp
  from Suc.IH [OF jn] obtain b where
    f: "fold (scale_step s n) [0..<Suc j] ((y, y), [], None)
        = ((b, b), replicate (min (Suc j) (n - 1)) (replicate N (replicate C [1])),
           Some (replicate N (replicate C 1)))"
    and sb: "shape4 N (((\<lambda>h. (h + 1) div 2) ^^ j) H) (((\<lambda>h. (h + 1) div 2) ^^ j) H) C b"
    by blast
  let ?h = "((\<lambda>h. (h + 1) div 2) ^^ j) H"
  have "Suc j \<le> n - 1" using Suc.prems by simp
  from halve_antimono [OF this, of H] k(4)
  have "k \<le> ((\<lambda>x. x div 2) ^^ Suc j) H" by (rule le_trans [rotated])
  then have fl: "1 \<le> ((\<lambda>x. x div 2) ^^ j) H div 2" and kfl: "k \<le> ((\<lambda>x. x div 2) ^^ j) H div 2"
    using k(3) by simp_all
  have h2: "2 \<le> ?h" using fl halve_le_half_up [of j H] by linarith
  obtain b' where sh: "shrink_images (b, b) = (b', b')"
    and sb': "shape4 N ((?h + 1) div 2) ((?h + 1) div 2) C b'"
    using shrink_images_same [OF sb pos h2] by blast
  have "((\<lambda>x. x div 2) ^^ j) H div 2 \<le> (?h + 1) div 2"
    using halve_le_half_up [of j H] by (intro div_le_mono) simp
  with kfl have kh': "k \<le> (?h + 1) div 2" by (rule le_trans)
  then have h': "0 < (?h + 1) div 2" using k(3) by linarith
  have g: "get_ssim s b' b' = (replicate N (replicate C 1), replicate N (replicate C 1))"
    by (rule scale_step_self [OF sb' pos h' k(1-3) kh' cs])
  have "fold (scale_step s n) [0..<Suc (Suc j)] ((y, y), [], None)
        = scale_step s n (Suc j) (fold (scale_step s n) [0..<Suc j] ((y, y), [], None))"
    by simp
  also have "\<dots> = ((b', b'), replicate (min (Suc (Suc j)) (n - 1)) (replicate N (replicate C [1])),
                     Some (replicate N (replicate C 1)))"
    unfolding f using Suc.prems
    by (cases "Suc j < n - 1")
       (auto simp: scale_step_def Let_def sh g relu_expand_ones min_def
          replicate_append_same)
  finally show ?case using sb' by auto
qed

lemma tzip1_replicate:
  "tzip1 f (replicate n x) (replicate n y) = replicate n (f x y)"
  by (simp add: tzip1_def zip_replicate)

lemma concatenate_ones:
  "K_concatenate2 (replicate (Suc m) (replicate N (replicate C [1::real])))
   = replicate N (replicate C (replicate (Suc m) 1))"
proof (induction m)
  case 0
  show ?case by simp
next
  case (Suc m)
  have "K_concatenate2 (replicate (Suc (Suc m)) (replicate N (replicate C [1::real])))
        = tzip2 (@) (replicate N (replicate C [1]))
            (K_concatenate2 (replicate (Suc m) (replicate N (replicate C [1]))))"
    by simp
  also have "\<dots> = replicate N (replicate C (replicate (Suc (Suc m)) 1))"
    unfolding Suc.IH by (simp add: tzip2_def tzip1_replicate)
  finally show ?case .
qed

lemma K_pow_one: "K_pow 1 p = 1"
  by (simp add: K_pow_def)

lemma pow_ones: "length pf = n \<Longrightarrow> tzip1 K_pow (replicate n 1) pf = replicate n 1"
proof (induction pf arbitrary: n)
  case Nil
  then show ?case by (simp add: tzip1_def)
next
  case (Cons p pf)
  then obtain m where n: "n = Suc m" and m: "length pf = m" by (cases n) auto
  from Cons.IH [OF m] show ?case by (simp add: n tzip1_def K_pow_one)
qed

lemma product_ones:
  assumes "\<forall>idx\<in>set idxs. idx < n"
  shows "fold (\<lambda>idx out. tzip2 (*) out
                 (tmap2 (\<lambda>v. v ! idx) (replicate N (replicate C (replicate n (1::real))))))
           idxs (replicate N (replicate C 1))
         = replicate N (replicate C 1)"
  using assms
  by (induction idxs) (simp_all add: tmap2_def tzip2_def tzip1_replicate)

lemma get_kernel_kernel_update [simp]: "get_kernel (s\<lparr>kernel := x\<rparr>) = get_kernel s"
  by (simp add: get_kernel_def)

lemma shrink_filter_facts:
  assumes k: "kernel s = get_kernel s" "0 < filter_size s"
    and sm: "0 < get_smallest_size (dim1 y) (int (length (power_factors s)) - 1)"
  shows "kernel (shrink_filter s y) = get_kernel (shrink_filter s y)"
    and "0 < filter_size (shrink_filter s y)"
    and "filter_size (shrink_filter s y)
         \<le> get_smallest_size (dim1 y) (int (length (power_factors s)) - 1)"
    and "c1 (shrink_filter s y) = c1 s" and "c2 (shrink_filter s y) = c2 s"
  using assms by (simp_all add: shrink_filter_def Let_def)


lemma DSSIM_self:
  assumes y: "shape4 N H W C y" and pos: "0 < N" "0 < H" "0 < W"
    and k: "kernel s = get_kernel s" "filter_size s = k" "0 < k" "k \<le> H" "k \<le> W"
    and cs: "0 < c1 s" "0 < c2 s"
  shows "DSSIMObjective_call s y y = 0"
  by (simp add: DSSIMObjective_call_def Let_def get_ssim_self [OF y pos k cs]
      tmap2_def K_mean2_def mean_list_def sum_list_concat sum_list_replicate)

lemma MSSIM_self:
  assumes y: "shape4 N H H C y" and pos: "0 < N"
    and k: "kernel s = get_kernel s" "0 < filter_size s"
    and cs: "0 < c1 s" "0 < c2 s"
    and pf: "power_factors s \<noteq> []"
    and sm: "0 < get_smallest_size H (int (length (power_factors s)) - 1)"
  shows "snd (MSSIMLoss_call s y y) = Inr 0"
proof -
  define n where "n = length (power_factors s)"
  define s1 where "s1 = shrink_filter s y"
  have n: "0 < n" using pf by (simp add: n_def)
  have H: "0 < H"
    using sm get_smallest_size_recursions [of H "length (power_factors s)"]
      halve_antimono [of 0 "length (power_factors s) - 1" H] by simp
  have d: "dim1 y = H" using dims_shape4 [OF y pos H H] by simp
  note f = shrink_filter_facts [OF k, of y, unfolded d, OF sm, folded s1_def]
  have kk: "filter_size s1 \<le> ((\<lambda>x. x div 2) ^^ (n - 1)) H"
    using f(3) by (simp add: get_smallest_size_recursions n_def)
  have cs1: "0 < c1 s1" "0 < c2 s1" using f(4,5) cs by simp_all
  have pf1: "power_factors s1 = power_factors s" by (simp add: s1_def)
  have jn: "n - 1 < n" using n by simp
  obtain b where
    l: "fold (scale_step s1 n) [0..<Suc (n - 1)] ((y, y), [], None)
        = ((b, b), replicate (min (Suc (n - 1)) (n - 1)) (replicate N (replicate C [1])),
           Some (replicate N (replicate C 1)))"
    using ms_loop_self [OF y pos f(1) refl f(2) kk cs1 jn] by blast
  have sn: "Suc (n - 1) = n" using n by simp
  have l': "fold (scale_step s1 n) [0..<n] ((y, y), [], None)
        = ((b, b), replicate (n - 1) (replicate N (replicate C [1])),
           Some (replicate N (replicate C 1)))"
    using l n unfolding sn by (simp add: min_def)
  have c: "replicate (n - 1) (replicate N (replicate C [1::real])) @ [replicate N (replicate C [1])]
           = replicate (Suc (n - 1)) (replicate N (replicate C [1]))"
    by (simp add: replicate_append_same)
  have p: "tzip1 K_pow (replicate n 1) (power_factors s) = replicate n 1"
    by (rule pow_ones) (simp add: n_def)
  have ms: "tmap2 (\<lambda>v. tzip1 K_pow v (power_factors s))
              (replicate N (replicate C (replicate n 1)))
            = replicate N (replicate C (replicate n 1))"
    by (simp add: tmap2_def p)
  have pr: "fold (\<lambda>idx out. tzip2 (*) out
                 (tmap2 (\<lambda>v. v ! idx) (replicate N (replicate C (replicate n (1::real))))))
              [1..<n] (tmap2 (\<lambda>v. v ! 0) (replicate N (replicate C (replicate n 1))))
            = replicate N (replicate C 1)"
  proof -
    have "tmap2 (\<lambda>v. v ! 0) (replicate N (replicate C (replicate n (1::real))))
          = replicate N (replicate C 1)"
      using n by (simp add: tmap2_def)
    then show ?thesis using product_ones [of "[1..<n]" n N C] by simp
  qed
  have m1: "K_concatenate2 (replicate (n - 1) (replicate N (replicate C [1::real]))
                             @ [replicate N (replicate C [1])])
            = replicate N (replicate C (replicate n 1))"
    unfolding c using concatenate_ones [of "n - 1" N C] by (simp only: sn)
  have g: "get_ms_ssim s y y = (s1, Inr (replicate N (replicate C 1)))"
    unfolding get_ms_ssim_def Let_def s1_def [symmetric] pf1 n_def [symmetric] l'
      prod.case option.case relu_expand_ones m1 ms pr
    by (rule refl)
  show ?thesis
    by (simp add: MSSIMLoss_call_def g tmap2_def K_mean2_def mean_list_def sum_list_concat
        sum_list_replicate)
qed



section \<open>Exact self-similarity\<close>

text \<open>
  C7. Every loss is 0 on a pair of identical inputs, in exact arithmetic. For an image batch
  \<open>y\<close> with at least one sample and one channel and height and width at least 2: the DSSIM
  loss of \<open>(y, y)\<close> is 0, for a component whose kernel is the one built for its filter size,
  with a filter no larger than the image and positive constants \<open>c1\<close>, \<open>c2\<close>; the
  multiscale loss is 0, for a square image whose smallest scale is not empty; the generalized
  loss, the L-inf norm and the gradient loss return the arrays of zeros.
\<close>

theorem exact_self_similarity:
  assumes y: "shape4 N H W C y" and pos: "0 < N" "0 < C" and hw: "2 \<le> H" "2 \<le> W"
    and d: "kernel d = get_kernel d" "0 < filter_size d" "filter_size d \<le> H"
           "filter_size d \<le> W" "0 < c1 d" "0 < c2 d"
    and m: "H = W" "kernel m = get_kernel m" "0 < filter_size m" "0 < c1 m" "0 < c2 m"
           "power_factors m \<noteq> []"
           "0 < get_smallest_size H (int (length (power_factors m)) - 1)"
    and g: "alpha g \<noteq> 0" "alpha g \<noteq> 2" "beta g \<noteq> 0"
  shows "DSSIMObjective_call d y y = 0
       \<and> snd (MSSIMLoss_call m y y) = Inr 0
       \<and> GeneralizedLoss_call g y y = Inr (zeros3 N H W)
       \<and> LInfNorm_call y y = zeros3 N 1 1
       \<and> GradientLoss_call GradientLoss_init y y = Inr (zeros3 N H W)"
proof -
  have H: "0 < H" and W: "0 < W" using hw by simp_all
  have 1: "DSSIMObjective_call d y y = 0"
    by (rule DSSIM_self [OF y pos(1) H W d(1) refl d(2-6)])
  have ys: "shape4 N H H C y" using y m(1) by simp
  have 2: "snd (MSSIMLoss_call m y y) = Inr 0"
    by (rule MSSIM_self [OF ys pos(1) m(2-7)])
  have 3: "GeneralizedLoss_call g y y = Inr (zeros3 N H W)"
    by (rule GeneralizedLoss_self [OF y g(1)])
  have 4: "LInfNorm_call y y = zeros3 N 1 1"
    by (rule LInfNorm_self [OF y H W pos(2)])
  have 5: "GradientLoss_call GradientLoss_init y y = Inr (zeros3 N H W)"
    by (rule GradientLoss_self [OF y hw])
       (simp add: GradientLoss_init_def GeneralizedLoss_init_def)
  from 1 2 3 4 5 show ?thesis by simp
qed

theorem exact_self_similarity_witness:
  "shape4 1 2 2 1 [[[[1 :: real], [2]], [[3], [4]]]] \<and> (0::nat) < 1 \<and> (2::nat) \<le> 2
   \<and> kernel (DSSIMObjective_init (1 / 100) (3 / 100) 1 (3 / 2) 1)
       = get_kernel (DSSIMObjective_init (1 / 100) (3 / 100) 1 (3 / 2) 1)
   \<and> 0 < filter_size (DSSIMObjective_init (1 / 100) (3 / 100) 1 (3 / 2) 1)
   \<and> filter_size (DSSIMObjective_init (1 / 100) (3 / 100) 1 (3 / 2) 1) \<le> 2
   \<and> 0 < c1 (DSSIMObjective_init (1 / 100) (3 / 100) 1 (3 / 2) 1)
   \<and> 0 < c2 (DSSIMObjective_init (1 / 100) (3 / 100) 1 (3 / 2) 1)
   \<and> kernel (MSSIMLoss_init (1 / 100) (3 / 100) 2 (3 / 2) 1 [1])
       = get_kernel (MSSIMLoss_init (1 / 100) (3 / 100) 2 (3 / 2) 1 [1])
   \<and> 0 < filter_size (MSSIMLoss_init (1 / 100) (3 / 100) 2 (3 / 2) 1 [1])
   \<and> 0 < c1 (MSSIMLoss_init (1 / 100) (3 / 100) 2 (3 / 2) 1 [1])
   \<and> 0 < c2 (MSSIMLoss_init (1 / 100) (3 / 100) 2 (3 / 2) 1 [1])
   \<and> power_factors (MSSIMLoss_init (1 / 100) (3 / 100) 2 (3 / 2) 1 [1]) \<noteq> []
   \<and> 0 < get_smallest_size 2
            (int (length (power_factors (MSSIMLoss_init (1 / 100) (3 / 100) 2 (3 / 2) 1 [1]))) - 1)
   \<and> alpha (GeneralizedLoss_init 1 (1 / 255)) \<noteq> 0
   \<and> alpha (GeneralizedLoss_init 1 (1 / 255)) \<noteq> 2
   \<and> beta (GeneralizedLoss_init 1 (1 / 255)) \<noteq> 0
   \<and> DSSIMObjective_call (DSSIMObjective_init (1 / 100) (3 / 100) 1 (3 / 2) 1)
         [[[[1], [2]], [[3], [4]]]] [[[[1], [2]], [[3], [4]]]] = 0
   \<and> snd (MSSIMLoss_call (MSSIMLoss_init (1 / 100) (3 / 100) 2 (3 / 2) 1 [1])
         [[[[1], [2]], [[3], [4]]]] [[[[1], [2]], [[3], [4]]]]) = Inr 0
   \<and> GeneralizedLoss_call (GeneralizedLoss_init 1 (1 / 255))
         [[[[1], [2]], [[3], [4]]]] [[[[1], [2]], [[3], [4]]]] = Inr [[[0, 0], [0, 0]]]
   \<and> LInfNorm_call [[[[1], [2]], [[3], [4]]]] [[[[1], [2]], [[3], [4]]]] = [[[0]]]
   \<and> GradientLoss_call GradientLoss_init
         [[[[1], [2]], [[3], [4]]]] [[[[1], [2]], [[3], [4]]]] = Inr [[[0, 0], [0, 0]]]"
proof -
  let ?d = "DSSIMObjective_init (1 / 100) (3 / 100) 1 (3 / 2) 1"
  let ?m = "MSSIMLoss_init (1 / 100) (3 / 100) 2 (3 / 2) 1 [1]"
  let ?g = "GeneralizedLoss_init 1 (1 / 255)"
  have y: "shape4 1 2 2 1 [[[[1 :: real], [2]], [[3], [4]]]]"
    by (simp add: shape4_def shape3_def shape2_def)
  have d1: "kernel ?d = get_kernel ?d" unfolding init1 by (simp add: get_kernel_size1)
  have d2: "0 < filter_size ?d" and d3: "filter_size ?d \<le> 2"
    and d5: "0 < c1 ?d" and d6: "0 < c2 ?d"
    unfolding init1 by simp_all
  have m2: "kernel ?m = get_kernel ?m" unfolding init2 by (simp add: get_kernel_size2)
  have m3: "0 < filter_size ?m" and m4: "0 < c1 ?m" and m5: "0 < c2 ?m"
    and m6: "power_factors ?m \<noteq> []"
    unfolding init2 by simp_all
  have m7: "0 < get_smallest_size 2 (int (length (power_factors ?m)) - 1)"
    unfolding init2 by (simp add: get_smallest_size.simps)
  have g1: "alpha ?g \<noteq> 0" and g2: "alpha ?g \<noteq> 2" and g3: "beta ?g \<noteq> 0"
    by (simp_all add: GeneralizedLoss_init_def)
  have z: "zeros3 1 2 2 = [[[0, 0], [0, 0]]]" "zeros3 1 1 1 = [[[0]]]"
    by (simp_all add: zeros3_def numeral_2_eq_2)
  have p: "(0::nat) < 1" "(2::nat) \<le> 2" by simp_all
  note r = exact_self_similarity [OF y p(1) p(1) p(2) p(2) d1 d2 d3 d3 d5 d6 refl
      m2 m3 m4 m5 m6 m7 g1 g2 g3, unfolded z]
  from r y p d1 d2 d3 d5 d6 m2 m3 m4 m5 m6 m7 g1 g2 g3 show ?thesis by blast
qed

end
